theory Spec2Isabelle
  imports Complex_Main "HOL-Library.Word"
begin

section \<open>JavaScript values used by the relay and the downloader\<close>

text \<open>
  A string is a list of characters with codes below 256. That covers what the program
  tests (flags, header names, URL schemes, digits, separators) and header values, which
  are byte strings. The built-ins of the language (\<open>startsWith\<close>, \<open>trim\<close>,
  \<open>toLowerCase\<close>, \<open>Number\<close>, \<open>String\<close>, \<open>Math.max\<close>, \<open>Math.min\<close>) are written out
  as HOL functions, so that the program's own functions can be read line by line against
  the source.
\<close>

definition startsWith :: "string \<Rightarrow> string \<Rightarrow> bool" where
  "startsWith s p = (take (length p) s = p)"

definition is_upper :: "char \<Rightarrow> bool" where
  "is_upper c = (let n = (of_char c :: nat) in
     (65 \<le> n \<and> n \<le> 90) \<or> (192 \<le> n \<and> n \<le> 222 \<and> n \<noteq> 215))"

definition lower_char :: "char \<Rightarrow> char" where
  "lower_char c = (if is_upper c then char_of ((of_char c :: nat) + 32) else c)"

definition toLowerCase :: "string \<Rightarrow> string" where
  "toLowerCase s = map lower_char s"

definition is_space :: "char \<Rightarrow> bool" where
  "is_space c = ((of_char c :: nat) \<in> {9, 10, 11, 12, 13, 32, 160})"

definition trim :: "string \<Rightarrow> string" where
  "trim s = rev (dropWhile is_space (rev (dropWhile is_space s)))"

definition is_digit :: "char \<Rightarrow> bool" where
  "is_digit c = (48 \<le> (of_char c :: nat) \<and> (of_char c :: nat) \<le> 57)"

text \<open>\<open>String(n)\<close> for a non-negative integer: its decimal digits.\<close>

definition digit_char :: "nat \<Rightarrow> char" where
  "digit_char d = char_of (48 + d)"

fun show_nat :: "nat \<Rightarrow> string" where
  "show_nat n = (if n < 10 then [digit_char n] else show_nat (n div 10) @ [digit_char (n mod 10)])"

declare show_nat.simps [simp del]

subsection \<open>Numbers\<close>

text \<open>
  A JavaScript number is \<open>NaN\<close>, an infinity or a finite value, here a rational.
  \<open>binary64\<close> gives the number a mathematical value becomes: 0 when its magnitude is at most
  \<open>2^-1075\<close>, an infinity when it is at least \<open>2^1024 - 2^970\<close>. In between the value is
  kept exact; its rounding to 53 significant bits is not modelled. That rounding is
  monotone and leaves the constants of the program (1000, 15000, 120000, 250, 2, 4)
  unchanged, so comparisons with them and clamping between them are unaffected.
\<close>

datatype jsnum = NaN | PosInf | NegInf | Fin rat

definition binary64 :: "rat \<Rightarrow> jsnum" where
  "binary64 r =
     (if \<bar>r\<bar> \<le> 1 / 2 ^ 1075 then Fin 0
      else if 2 ^ 1024 - 2 ^ 970 \<le> r then PosInf
      else if r \<le> - (2 ^ 1024 - 2 ^ 970) then NegInf
      else Fin r)"

fun to_binary64 :: "jsnum \<Rightarrow> jsnum" where
  "to_binary64 (Fin r) = binary64 r"
| "to_binary64 n = n"

fun js_le :: "jsnum \<Rightarrow> jsnum \<Rightarrow> bool" where
  "js_le NaN _ = False"
| "js_le _ NaN = False"
| "js_le NegInf _ = True"
| "js_le _ PosInf = True"
| "js_le (Fin a) (Fin b) = (a \<le> b)"
| "js_le _ _ = False"

text \<open>\<open>Math.max\<close> and \<open>Math.min\<close> return \<open>NaN\<close> as soon as one argument is \<open>NaN\<close>.\<close>

fun Math_max :: "jsnum \<Rightarrow> jsnum \<Rightarrow> jsnum" where
  "Math_max NaN _ = NaN"
| "Math_max _ NaN = NaN"
| "Math_max a b = (if js_le a b then b else a)"

fun Math_min :: "jsnum \<Rightarrow> jsnum \<Rightarrow> jsnum" where
  "Math_min NaN _ = NaN"
| "Math_min _ NaN = NaN"
| "Math_min a b = (if js_le a b then a else b)"

text \<open>Truthiness of a number: \<open>0\<close> and \<open>NaN\<close> are falsy.\<close>

fun num_truthy :: "jsnum \<Rightarrow> bool" where
  "num_truthy NaN = False"
| "num_truthy (Fin r) = (r \<noteq> 0)"
| "num_truthy _ = True"

text \<open>
  \<open>Number(s)\<close> on a string. \<open>literal_value\<close> is the mathematical value of the text:
  surrounding white space is dropped; the empty string is 0; \<open>0x\<close>, \<open>0o\<close> and \<open>0b\<close>
  introduce unsigned hexadecimal, octal and binary integers; otherwise the text must be an
  optionally signed \<open>Infinity\<close> or decimal literal (digits, optional fraction, optional
  exponent); anything else is \<open>NaN\<close>. \<open>Number\<close> is that value as a binary64.
\<close>

definition digit_val :: "char \<Rightarrow> nat option" where
  "digit_val c = (let n = (of_char c :: nat) in
     if 48 \<le> n \<and> n \<le> 57 then Some (n - 48)
     else if 97 \<le> n \<and> n \<le> 102 then Some (n - 87)
     else if 65 \<le> n \<and> n \<le> 70 then Some (n - 55)
     else None)"

fun digits_in :: "nat \<Rightarrow> nat \<Rightarrow> string \<Rightarrow> nat option" where
  "digits_in b acc [] = Some acc"
| "digits_in b acc (c # cs) =
     (case digit_val c of
        None \<Rightarrow> None
      | Some d \<Rightarrow> if d < b then digits_in b (acc * b + d) cs else None)"

definition radix_literal :: "nat \<Rightarrow> string \<Rightarrow> jsnum" where
  "radix_literal b ds =
     (if ds = [] then NaN
      else case digits_in b 0 ds of None \<Rightarrow> NaN | Some n \<Rightarrow> Fin (of_nat n))"

definition dec_nat :: "string \<Rightarrow> nat" where
  "dec_nat ds = (case digits_in 10 0 ds of None \<Rightarrow> 0 | Some n \<Rightarrow> n)"

definition exponent_part :: "string \<Rightarrow> int option" where
  "exponent_part s =
     (if s = [] then Some 0
      else if hd s = CHR ''e'' \<or> hd s = CHR ''E'' then
        (let t = tl s;
             neg = (t \<noteq> [] \<and> hd t = CHR ''-'');
             ds = (if t \<noteq> [] \<and> (hd t = CHR ''-'' \<or> hd t = CHR ''+'') then tl t else t)
         in if ds \<noteq> [] \<and> list_all is_digit ds
            then Some (if neg then - int (dec_nat ds) else int (dec_nat ds))
            else None)
      else None)"

definition scale10 :: "rat \<Rightarrow> int \<Rightarrow> rat" where
  "scale10 m e = (if 0 \<le> e then m * 10 ^ nat e else m / 10 ^ nat (- e))"

definition unsigned_decimal :: "string \<Rightarrow> jsnum" where
  "unsigned_decimal s =
     (if s = ''Infinity'' then PosInf
      else
        let ip = takeWhile is_digit s;
            r1 = dropWhile is_digit s;
            dot = (r1 \<noteq> [] \<and> hd r1 = CHR ''.'');
            fp = (if dot then takeWhile is_digit (tl r1) else []);
            r2 = (if dot then dropWhile is_digit (tl r1) else r1)
        in if ip = [] \<and> fp = [] then NaN
           else case exponent_part r2 of
                  None \<Rightarrow> NaN
                | Some e \<Rightarrow>
                    Fin (scale10 (of_nat (dec_nat ip) + of_nat (dec_nat fp) / 10 ^ length fp) e))"

fun js_neg :: "jsnum \<Rightarrow> jsnum" where
  "js_neg NaN = NaN"
| "js_neg PosInf = NegInf"
| "js_neg NegInf = PosInf"
| "js_neg (Fin r) = Fin (- r)"

definition literal_value :: "string \<Rightarrow> jsnum" where
  "literal_value s0 =
     (let s = trim s0 in
      if s = [] then Fin 0
      else if startsWith s ''0x'' \<or> startsWith s ''0X'' then radix_literal 16 (drop 2 s)
      else if startsWith s ''0o'' \<or> startsWith s ''0O'' then radix_literal 8 (drop 2 s)
      else if startsWith s ''0b'' \<or> startsWith s ''0B'' then radix_literal 2 (drop 2 s)
      else if hd s = CHR ''-'' then js_neg (unsigned_decimal (tl s))
      else if hd s = CHR ''+'' then unsigned_decimal (tl s)
      else unsigned_decimal s)"

definition Number_str :: "string \<Rightarrow> jsnum" where
  "Number_str s = to_binary64 (literal_value s)"

text \<open>Truthiness of a string that may be \<open>null\<close> or \<open>undefined\<close>, and \<open>a || b\<close> on such values.\<close>

definition truthy_str :: "string option \<Rightarrow> bool" where
  "truthy_str v = (case v of None \<Rightarrow> False | Some s \<Rightarrow> s \<noteq> [])"

definition js_or :: "string option \<Rightarrow> string option \<Rightarrow> string option" where
  "js_or a b = (if truthy_str a then a else b)"

text \<open>
  Library functions whose results the program only passes on are parameters of the model:
  the match of the regular expression of \<open>filenameFromDisposition\<close> (its two groups,
  the one after \<open>filename*=UTF-8''\<close> and the one after \<open>filename=\<close>; \<open>None\<close> when it
  does not match), \<open>decodeURIComponent\<close> (\<open>None\<close> when it throws \<open>URIError\<close>) and the
  path name of \<open>new URL(u)\<close> (\<open>None\<close> when the constructor throws). So is the text
  \<open>String(e)\<close> of the error \<open>res.writeHead\<close> throws for the header it refuses.
\<close>

record platform =
  filename_regex :: "string \<Rightarrow> (string option \<times> string option) option"
  decodeURIComponent :: "string \<Rightarrow> string option"
  url_pathname :: "string \<Rightarrow> string option"
  writeHead_error :: "string \<Rightarrow> string"

section \<open>The relay (server.js and its sniffing variant)\<close>

subsection \<open>Query parameters\<close>

text \<open>\<open>URLSearchParams\<close>: an ordered list of name/value pairs.\<close>

type_synonym params = "(string \<times> string) list"

definition sp_get :: "params \<Rightarrow> string \<Rightarrow> string option" where
  "sp_get sp k = map_of sp k"

definition sp_getAll :: "params \<Rightarrow> string \<Rightarrow> string list" where
  "sp_getAll sp k = map snd (filter (\<lambda>kv. fst kv = k) sp)"

definition sp_append :: "params \<Rightarrow> string \<Rightarrow> string \<Rightarrow> params" where
  "sp_append sp k v = sp @ [(k, v)]"

fun sp_set :: "params \<Rightarrow> string \<Rightarrow> string \<Rightarrow> params" where
  "sp_set [] k v = [(k, v)]"
| "sp_set (kv # sp) k v =
     (if fst kv = k then (k, v) # filter (\<lambda>x. fst x \<noteq> k) sp else kv # sp_set sp k v)"

subsection \<open>parseHeadersFromQuery\<close>

text \<open>
  The headers are a plain object, here the map of its own properties. Assigning a string
  to its \<open>__proto__\<close> key stores nothing.
\<close>

type_synonym headers = "string \<Rightarrow> string option"

definition pushHeader :: "headers \<Rightarrow> string \<Rightarrow> string \<Rightarrow> headers" where
  "pushHeader headers k v =
     (if k = [] then headers
      else if toLowerCase k = ''cookie'' then
        headers(''Cookie'' \<mapsto>
          (if truthy_str (headers ''Cookie'') then the (headers ''Cookie'') @ ''; '' else []) @ v)
      else if k = ''__proto__'' then headers
      else headers(k \<mapsto> v))"

text \<open>One \<open>header=K:V\<close> entry: split at the first colon, which must not be at index 0.\<close>

definition header_entry :: "headers \<Rightarrow> string \<Rightarrow> headers" where
  "header_entry headers h =
     (let k0 = takeWhile (\<lambda>c. c \<noteq> CHR '':'') h in
      if CHR '':'' \<in> set h \<and> k0 \<noteq> []
      then pushHeader headers (trim k0) (trim (tl (dropWhile (\<lambda>c. c \<noteq> CHR '':'') h)))
      else headers)"

definition parseHeadersFromQuery :: "params \<Rightarrow> headers" where
  "parseHeadersFromQuery sp =
     (let h1 = foldl header_entry Map.empty (sp_getAll sp ''header'');
          auth = sp_get sp ''auth'';
          h2 = (if truthy_str auth
                then pushHeader h1 ''Authorization''
                       (if startsWith (the auth) ''Bearer '' \<or> startsWith (the auth) ''Basic ''
                        then the auth else ''Bearer '' @ the auth)
                else h1);
          referer = sp_get sp ''referer'';
          h3 = (if truthy_str referer then pushHeader h2 ''Referer'' (the referer) else h2);
          origin = sp_get sp ''origin'';
          h4 = (if truthy_str origin then pushHeader h3 ''Origin'' (the origin) else h3)
      in foldl (\<lambda>h c. pushHeader h ''Cookie'' c) h4 (sp_getAll sp ''cookie''))"

text \<open>The sniffing variant adds browser-like defaults for \<open>Accept\<close> and \<open>User-Agent\<close>.\<close>

definition default_accept :: string where
  "default_accept = ''image/avif,image/webp,image/*;q=0.9,*/*;q=0.8''"

definition default_user_agent :: string where
  "default_user_agent =
     ''Mozilla/5.0 (Windows NT 10.0; Win64; x64) AppleWebKit/537.36 (KHTML, like Gecko) Chrome/124 Safari/537.36''"

definition parseHeadersFromQuery_defaults :: "params \<Rightarrow> headers" where
  "parseHeadersFromQuery_defaults sp =
     (let h = parseHeadersFromQuery sp;
          h' = (if truthy_str (h ''Accept'') then h else h(''Accept'' \<mapsto> default_accept))
      in if truthy_str (h' ''User-Agent'') then h' else h'(''User-Agent'' \<mapsto> default_user_agent))"

subsection \<open>File names\<close>

definition filenameFromDisposition :: "platform \<Rightarrow> string option \<Rightarrow> string option" where
  "filenameFromDisposition pf disposition =
     (if \<not> truthy_str disposition then None
      else
        let v = (case filename_regex pf (the disposition) of
                   None \<Rightarrow> None
                 | Some (g1, g2) \<Rightarrow> js_or (js_or g1 g2) None)
        in if truthy_str v
           then (case decodeURIComponent pf (the v) of Some d \<Rightarrow> Some d | None \<Rightarrow> v)
           else None)"

definition safe_char :: "char \<Rightarrow> bool" where
  "safe_char c = (let n = (of_char c :: nat) in
     (97 \<le> n \<and> n \<le> 122) \<or> (65 \<le> n \<and> n \<le> 90) \<or> (48 \<le> n \<and> n \<le> 57)
     \<or> c = CHR ''.'' \<or> c = CHR ''_'' \<or> c = CHR ''-'')"

definition sanitizeFilename :: "string option \<Rightarrow> string" where
  "sanitizeFilename name =
     map (\<lambda>c. if safe_char c then c else CHR ''_'') (the (js_or name (Some ''file'')))"

subsection \<open>The upstream fetch and the reply\<close>

text \<open>
  The network is an input of the model. \<open>fetch url headers timeoutMs\<close> either throws
  (the text is \<open>String(err)\<close>; an abort after \<open>timeoutMs\<close> is one such error) or returns
  a response: its \<open>ok\<close> flag and status, \<open>headers.get\<close>, and what
  \<open>resp.body.getReader()\<close> and the first \<open>reader.read()\<close> give (the sniffing variant
  only reads it): they throw (the body is \<open>null\<close>, or the read fails), or give a first
  chunk, or the end of the body.
\<close>

datatype first_read = ReadThrows string | ReadChunk "8 word list" | ReadDone

record upstream =
  up_ok :: bool
  up_status :: nat
  up_header :: "string \<Rightarrow> string option"
  up_first :: first_read

datatype fetched = FetchThrows string | FetchReturns upstream

type_synonym fetch = "string \<Rightarrow> headers \<Rightarrow> jsnum \<Rightarrow> fetched"

text \<open>
  What the handler writes: either \<open>bad(res, code, message, extra)\<close>, a JSON body
  \<open>{ok: false, error: message, detail?}\<close> with that status, or
  \<open>res.writeHead(200, headersOut)\<close> followed by the piped body, or nothing at all when
  the handler throws outside a \<open>try\<close>: the server returns the handler's promise without
  awaiting it inside its own \<open>try\<close>, so its \<open>catch\<close> does not answer. The result also
  lists the upstream calls made, in order.
\<close>

datatype reply = Json nat bool string "string option" | Head nat headers | NoReply

record served =
  reply :: reply
  fetches :: "(string \<times> headers \<times> jsnum) list"

definition bad :: "nat \<Rightarrow> string \<Rightarrow> string option \<Rightarrow> reply" where
  "bad code message detail = Json code False message detail"

subsection \<open>proxyImage\<close>

text \<open>The test that the URL starts with \<open>http://\<close> or \<open>https://\<close>, letter case ignored.\<close>

definition http_url :: "string \<Rightarrow> bool" where
  "http_url url =
     (toLowerCase (take 7 url) = ''http://'' \<or> toLowerCase (take 8 url) = ''https://'')"

definition allowAny :: "params \<Rightarrow> bool" where
  "allowAny sp = (sp_get sp ''allowAny'' = Some ''1'' \<or> sp_get sp ''allowAny'' = Some ''true'')"

definition timeoutMs :: "params \<Rightarrow> jsnum" where
  "timeoutMs sp =
     Math_min
       (Math_max
          (if truthy_str (sp_get sp ''timeout'')
           then Number_str (the (sp_get sp ''timeout'')) else Fin 15000)
          (Fin 1000))
       (Fin 120000)"

definition cd :: "params \<Rightarrow> string" where
  "cd sp = the (js_or (sp_get sp ''contentDisposition'') (Some ''inline''))"

definition headersOut :: "platform \<Rightarrow> params \<Rightarrow> upstream \<Rightarrow> string \<Rightarrow> headers" where
  "headersOut pf sp resp ctype =
     (let overrideName = sp_get sp ''filename'';
          filename = sanitizeFilename
            (js_or overrideName (filenameFromDisposition pf (up_header resp ''content-disposition'')));
          h = Map.empty
            (''content-type'' \<mapsto> (if ctype = [] then ''application/octet-stream'' else ctype),
             ''cache-control'' \<mapsto> ''no-store'',
             ''content-disposition'' \<mapsto>
                cd sp @ ''; filename='' @ [CHR 0x22] @ (if filename = [] then ''file'' else filename)
                   @ [CHR 0x22]);
          clen = up_header resp ''content-length''
      in if truthy_str clen then h(''content-length'' \<mapsto> the clen) else h)"

text \<open>
  \<open>res.writeHead(200, headersOut)\<close> checks every header value and throws at the first
  one, in the order the object lists them, that holds a character other than a tab, 0x20
  to 0x7e and 0x80 to 0xff (a character above 0xff is refused too; the strings here have
  none). \<open>contentDisposition\<close> comes from the caller unchecked.
  \<open>writeHead_throws\<close> is the name of the refused header, \<open>None\<close> when all pass.
\<close>

definition valid_header_char :: "char \<Rightarrow> bool" where
  "valid_header_char c = (let n = (of_char c :: nat) in n = 9 \<or> (32 \<le> n \<and> n \<le> 126) \<or> 128 \<le> n)"

definition valid_header_value :: "string \<Rightarrow> bool" where
  "valid_header_value v = list_all valid_header_char v"

definition writeHead_throws :: "headers \<Rightarrow> string option" where
  "writeHead_throws h =
     find (\<lambda>k. case h k of None \<Rightarrow> False | Some v \<Rightarrow> \<not> valid_header_value v)
       [''content-type'', ''cache-control'', ''content-disposition'', ''content-length'']"

text \<open>
  server.js: the declared type alone decides. \<open>res.writeHead\<close> is called outside any
  \<open>try\<close>: when it throws, nothing is written.
\<close>

definition proxyImage_reply :: "platform \<Rightarrow> params \<Rightarrow> upstream \<Rightarrow> reply" where
  "proxyImage_reply pf sp resp =
     (if \<not> up_ok resp then bad 502 (''upstream HTTP '' @ show_nat (up_status resp)) None
      else
        let ctype = toLowerCase (the (js_or (up_header resp ''content-type'') (Some [])))
        in if \<not> allowAny sp \<and> \<not> startsWith ctype ''image/''
           then bad 415 (''unsupported content-type: '' @ ctype) None
           else (case writeHead_throws (headersOut pf sp resp ctype) of
                   None \<Rightarrow> Head 200 (headersOut pf sp resp ctype)
                 | Some name \<Rightarrow> NoReply))"

definition proxyImage :: "platform \<Rightarrow> fetch \<Rightarrow> params \<Rightarrow> served" where
  "proxyImage pf fetch sp =
     (let url = sp_get sp ''url'' in
      if \<not> truthy_str url then \<lparr>reply = bad 400 ''missing url parameter'' None, fetches = []\<rparr>
      else if \<not> http_url (the url)
      then \<lparr>reply = bad 400 ''url must be http(s)'' None, fetches = []\<rparr>
      else
        let headers = parseHeadersFromQuery sp
        in \<lparr>reply =
              (case fetch (the url) headers (timeoutMs sp) of
                 FetchThrows err \<Rightarrow> bad 502 ''fetch error'' (Some err)
               | FetchReturns resp \<Rightarrow> proxyImage_reply pf sp resp),
            fetches = [(the url, headers, timeoutMs sp)]\<rparr>)"

text \<open>
  The sniffing variant: magic bytes of the first chunk may replace a non-image type.
  Reading the first chunk and \<open>res.writeHead\<close> are inside a \<open>try\<close> whose \<open>catch\<close>
  answers 500 while no header has been sent.
\<close>

definition sniffImageType :: "8 word list \<Rightarrow> string option" where
  "sniffImageType b =
     (if length b \<ge> 3 \<and> b ! 0 = 0xff \<and> b ! 1 = 0xd8 \<and> b ! 2 = 0xff then Some ''image/jpeg''
      else if length b \<ge> 8 \<and> b ! 0 = 0x89 \<and> b ! 1 = 0x50 \<and> b ! 2 = 0x4e \<and> b ! 3 = 0x47
              \<and> b ! 4 = 0x0d \<and> b ! 5 = 0x0a \<and> b ! 6 = 0x1a \<and> b ! 7 = 0x0a
      then Some ''image/png''
      else if length b \<ge> 12 \<and> b ! 0 = 0x47 \<and> b ! 1 = 0x49 \<and> b ! 2 = 0x46 \<and> b ! 3 = 0x38
      then Some ''image/gif''
      else if length b \<ge> 12 \<and> b ! 0 = 0x52 \<and> b ! 1 = 0x49 \<and> b ! 2 = 0x46 \<and> b ! 3 = 0x46
              \<and> b ! 8 = 0x57 \<and> b ! 9 = 0x45 \<and> b ! 10 = 0x42 \<and> b ! 11 = 0x50
      then Some ''image/webp''
      else None)"

definition outType :: "string \<Rightarrow> string option \<Rightarrow> string" where
  "outType upstreamType sniffed =
     (if upstreamType = [] \<or> \<not> startsWith upstreamType ''image/''
      then (case sniffed of Some t \<Rightarrow> t | None \<Rightarrow> upstreamType)
      else upstreamType)"

definition proxyImage_sniff_reply :: "platform \<Rightarrow> params \<Rightarrow> upstream \<Rightarrow> reply" where
  "proxyImage_sniff_reply pf sp resp =
     (if \<not> up_ok resp then bad 502 (''upstream HTTP '' @ show_nat (up_status resp)) None
      else case up_first resp of
        ReadThrows e \<Rightarrow> bad 500 ''stream setup error'' (Some e)
      | firstRead \<Rightarrow>
          let firstChunk = (case firstRead of ReadChunk v \<Rightarrow> v | _ \<Rightarrow> []);
              upstreamType = toLowerCase (the (js_or (up_header resp ''content-type'') (Some [])));
              t = outType upstreamType (sniffImageType firstChunk)
          in if \<not> allowAny sp \<and> (t = [] \<or> \<not> startsWith t ''image/'')
             then bad 415
                    (''unsupported content-type: ''
                       @ (if upstreamType = [] then ''unknown'' else upstreamType)) None
             else (case writeHead_throws (headersOut pf sp resp t) of
                     None \<Rightarrow> Head 200 (headersOut pf sp resp t)
                   | Some name \<Rightarrow>
                       bad 500 ''stream setup error'' (Some (writeHead_error pf name))))"

definition proxyImage_sniff :: "platform \<Rightarrow> fetch \<Rightarrow> params \<Rightarrow> served" where
  "proxyImage_sniff pf fetch sp =
     (let url = sp_get sp ''url'' in
      if \<not> truthy_str url then \<lparr>reply = bad 400 ''missing url parameter'' None, fetches = []\<rparr>
      else if \<not> http_url (the url)
      then \<lparr>reply = bad 400 ''url must be http(s)'' None, fetches = []\<rparr>
      else
        let headers = parseHeadersFromQuery_defaults sp
        in \<lparr>reply =
              (case fetch (the url) headers (timeoutMs sp) of
                 FetchThrows err \<Rightarrow> bad 502 ''fetch error'' (Some err)
               | FetchReturns resp \<Rightarrow> proxyImage_sniff_reply pf sp resp),
            fetches = [(the url, headers, timeoutMs sp)]\<rparr>)"

subsection \<open>handlePostImage\<close>

text \<open>
  The parsed JSON body (\<open>{}\<close> when the text is empty or does not parse). An object is
  the list of its own properties in enumeration order. \<open>String(v)\<close> of a number is left to
  a parameter \<open>numStr\<close> (the shortest decimal that reads back as the same binary64).
\<close>

datatype json = JNull | JBool bool | JNum jsnum | JStr string | JArr "json list"
  | JObj "(string \<times> json) list"

fun truthy :: "json \<Rightarrow> bool" where
  "truthy JNull = False"
| "truthy (JBool b) = b"
| "truthy (JNum n) = num_truthy n"
| "truthy (JStr s) = (s \<noteq> [])"
| "truthy (JArr _) = True"
| "truthy (JObj _) = True"

fun get_prop :: "json \<Rightarrow> string \<Rightarrow> json option" where
  "get_prop (JObj kvs) k = map_of kvs k"
| "get_prop _ k = None"

definition field_truthy :: "json \<Rightarrow> string \<Rightarrow> bool" where
  "field_truthy body k = (case get_prop body k of None \<Rightarrow> False | Some v \<Rightarrow> truthy v)"

fun join_comma :: "string list \<Rightarrow> string" where
  "join_comma [] = []"
| "join_comma [s] = s"
| "join_comma (s # t # r) = s @ '','' @ join_comma (t # r)"

fun js_String :: "(jsnum \<Rightarrow> string) \<Rightarrow> json \<Rightarrow> string" where
  "js_String numStr JNull = ''null''"
| "js_String numStr (JBool b) = (if b then ''true'' else ''false'')"
| "js_String numStr (JNum n) = numStr n"
| "js_String numStr (JStr s) = s"
| "js_String numStr (JArr xs) =
     join_comma (map (\<lambda>x. if x = JNull then [] else js_String numStr x) xs)"
| "js_String numStr (JObj _) = ''[object Object]''"

definition set_if :: "(jsnum \<Rightarrow> string) \<Rightarrow> json \<Rightarrow> string \<Rightarrow> params \<Rightarrow> params" where
  "set_if numStr body k sp =
     (if field_truthy body k then sp_set sp k (js_String numStr (the (get_prop body k))) else sp)"

fun entries :: "json \<Rightarrow> (string \<times> json) list" where
  "entries (JObj kvs) = kvs"
| "entries (JArr xs) = zip (map show_nat [0 ..< length xs]) xs"
| "entries _ = []"

fun is_object :: "json \<Rightarrow> bool" where
  "is_object (JObj _) = True"
| "is_object (JArr _) = True"
| "is_object JNull = True"
| "is_object _ = False"

definition handlePostImage_params :: "(jsnum \<Rightarrow> string) \<Rightarrow> json \<Rightarrow> params" where
  "handlePostImage_params numStr body =
     (let sp1 = set_if numStr body ''url'' [];
          sp2 = set_if numStr body ''timeout'' sp1;
          sp3 = (if field_truthy body ''allowAny''
                 then sp_set sp2 ''allowAny'' (if field_truthy body ''allowAny'' then ''1'' else ''0'')
                 else sp2);
          sp4 = set_if numStr body ''contentDisposition'' sp3;
          sp5 = set_if numStr body ''filename'' sp4;
          sp6 = set_if numStr body ''auth'' sp5;
          sp7 = set_if numStr body ''referer'' sp6;
          sp8 = set_if numStr body ''origin'' sp7;
          sp9 = (if field_truthy body ''cookie''
                 then foldl (\<lambda>sp c. sp_append sp ''cookie'' (js_String numStr c)) sp8
                        (case the (get_prop body ''cookie'') of JArr l \<Rightarrow> l | c \<Rightarrow> [c])
                 else sp8)
      in if field_truthy body ''headers'' \<and> is_object (the (get_prop body ''headers''))
         then foldl (\<lambda>sp kv. sp_append sp ''header'' (fst kv @ '': '' @ js_String numStr (snd kv)))
                sp9 (entries (the (get_prop body ''headers'')))
         else sp9)"

text \<open>
  \<open>handlePostImage\<close> on a request body of \<open>nbytes\<close> bytes whose parsed value is \<open>body\<close>.
  It rejects a body of more than 1000000 bytes (\<open>payload too large\<close>), and reading
  \<open>body.url\<close> throws when the body parses to \<open>null\<close>. In both cases the handler's
  promise rejects before \<open>proxyImage\<close> is called, and nothing is written (\<open>None\<close>).
\<close>

definition handlePostImage ::
  "platform \<Rightarrow> fetch \<Rightarrow> (jsnum \<Rightarrow> string) \<Rightarrow> nat \<Rightarrow> json \<Rightarrow> served option" where
  "handlePostImage pf fetch numStr nbytes body =
     (if nbytes > 1000000 then None
      else if body = JNull then None
      else Some (proxyImage pf fetch (handlePostImage_params numStr body)))"

definition handlePostImage_sniff ::
  "platform \<Rightarrow> fetch \<Rightarrow> (jsnum \<Rightarrow> string) \<Rightarrow> nat \<Rightarrow> json \<Rightarrow> served option" where
  "handlePostImage_sniff pf fetch numStr nbytes body =
     (if nbytes > 1000000 then None
      else if body = JNull then None
      else Some (proxyImage_sniff pf fetch (handlePostImage_params numStr body)))"

section \<open>Properties of the relay\<close>

text \<open>
  Not modelled: the structured log lines of the sniffing variant, and the piping of the
  body after \<open>writeHead\<close> (a stream error then destroys the connection). Neither changes
  the status line, the headers or the upstream calls.
\<close>

definition content_type :: "reply \<Rightarrow> string option" where
  "content_type r =
     (case r of Head code h \<Rightarrow> h ''content-type'' | Json code ok msg detail \<Rightarrow> None
      | NoReply \<Rightarrow> None)"

definition status :: "reply \<Rightarrow> nat option" where
  "status r =
     (case r of Head code h \<Rightarrow> Some code | Json code ok msg detail \<Rightarrow> Some code
      | NoReply \<Rightarrow> None)"

text \<open>Concrete inputs used to run the model.\<close>

definition fixture_platform :: platform where
  "fixture_platform = \<lparr>filename_regex = (\<lambda>d. None), decodeURIComponent = Some,
     url_pathname = (\<lambda>u. Some ''/a.png''),
     writeHead_error = (\<lambda>name. ''TypeError: invalid '' @ name)\<rparr>"

definition fixture_numStr :: "jsnum \<Rightarrow> string" where
  "fixture_numStr n =
     (case n of Fin r \<Rightarrow> show_nat (nat \<lfloor>r\<rfloor>) | NaN \<Rightarrow> ''NaN'' | PosInf \<Rightarrow> ''Infinity''
      | NegInf \<Rightarrow> ''-Infinity'')"

definition jpeg_as_text :: upstream where
  "jpeg_as_text = \<lparr>up_ok = True, up_status = 200,
     up_header = [''content-type'' \<mapsto> ''text/plain''],
     up_first = ReadChunk [0xff, 0xd8, 0xff, 0xe0]\<rparr>"


definition fetch_returns :: "upstream \<Rightarrow> fetch" where
  "fetch_returns resp = (\<lambda>url headers timeout. FetchReturns resp)"

subsection \<open>URL validation\<close>

lemma not_http_url_Nil: "\<not> http_url []"
  by (simp add: http_url_def toLowerCase_def)

lemma http_url_cdn: "http_url ''http://cdn/a''"
  by code_simp

lemma not_http_url_ftp: "\<not> http_url ''ftp://cdn/a''"
  by code_simp

lemma map_of_filter_neq:
  "k' \<noteq> k \<Longrightarrow> map_of (filter (\<lambda>x. fst x \<noteq> k) sp) k' = map_of sp k'"
  by (induction sp) auto

lemma sp_get_set: "sp_get (sp_set sp k v) k' = (if k' = k then Some v else sp_get sp k')"
  by (induction sp) (auto simp: sp_get_def map_of_filter_neq)

lemma sp_get_append_other: "k' \<noteq> k \<Longrightarrow> sp_get (sp_append sp k v) k' = sp_get sp k'"
  by (simp add: sp_get_def sp_append_def map_add_def split: option.splits)

lemma sp_get_set_if: "k' \<noteq> k \<Longrightarrow> sp_get (set_if f body k sp) k' = sp_get sp k'"
  by (simp add: set_if_def sp_get_set)

lemma sp_get_foldl_append:
  "k' \<noteq> k \<Longrightarrow> sp_get (foldl (\<lambda>sp x. sp_append sp k (g x)) sp xs) k' = sp_get sp k'"
  by (induction xs arbitrary: sp) (simp_all add: sp_get_append_other)

lemma post_url_param:
  "sp_get (handlePostImage_params f body) ''url'' =
     (if field_truthy body ''url'' then Some (js_String f (the (get_prop body ''url''))) else None)"
  by (simp add: handlePostImage_params_def Let_def sp_get_foldl_append sp_get_set_if sp_get_set)
    (simp add: set_if_def sp_get_set, simp add: sp_get_def)

lemma post_url_case:
  assumes "field_truthy body ''url''
             \<longrightarrow> \<not> http_url (js_String f (the (get_prop body ''url'')))"
  shows "case sp_get (handlePostImage_params f body) ''url'' of
           None \<Rightarrow> True | Some u \<Rightarrow> \<not> http_url u"
  using assms by (simp add: post_url_param)

lemma proxyImage_rejects_url:
  assumes "case sp_get sp ''url'' of None \<Rightarrow> True | Some u \<Rightarrow> \<not> http_url u"
  shows "\<exists>msg. proxyImage pf fetch sp = \<lparr>reply = Json 400 False msg None, fetches = []\<rparr>"
    and "\<exists>msg. proxyImage_sniff pf fetch sp = \<lparr>reply = Json 400 False msg None, fetches = []\<rparr>"
  using assms
  by (auto simp: proxyImage_def proxyImage_sniff_def bad_def truthy_str_def not_http_url_Nil
      Let_def split: option.splits)

text \<open>
  C5, as the code has it. \<open>proxyImage\<close> answers 400 with an \<open>ok: false\<close> JSON body and
  makes no upstream call when the \<open>url\<close> parameter is missing or does not start with
  \<open>http://\<close> or \<open>https://\<close> (letter case ignored). That covers every GET, and every POST
  that reaches \<open>proxyImage\<close>: one whose body has at most 1000000 bytes and is not
  \<open>null\<close>, with the \<open>url\<close> field in the place of the parameter.
\<close>

theorem bad_url_rejected_when_proxyImage_runs:
  "((case sp_get sp ''url'' of None \<Rightarrow> True | Some u \<Rightarrow> \<not> http_url u)
      \<longrightarrow> (\<exists>msg. proxyImage pf fetch sp = \<lparr>reply = Json 400 False msg None, fetches = []\<rparr>)
        \<and> (\<exists>msg. proxyImage_sniff pf fetch sp
                    = \<lparr>reply = Json 400 False msg None, fetches = []\<rparr>))
   \<and> (nbytes \<le> 1000000 \<and> body \<noteq> JNull
        \<and> (field_truthy body ''url''
              \<longrightarrow> \<not> http_url (js_String numStr (the (get_prop body ''url''))))
      \<longrightarrow> (\<exists>msg. handlePostImage pf fetch numStr nbytes body
                    = Some \<lparr>reply = Json 400 False msg None, fetches = []\<rparr>)
        \<and> (\<exists>msg. handlePostImage_sniff pf fetch numStr nbytes body
                    = Some \<lparr>reply = Json 400 False msg None, fetches = []\<rparr>))"
proof -
  have post: "(\<exists>msg. handlePostImage pf fetch numStr nbytes body
                    = Some \<lparr>reply = Json 400 False msg None, fetches = []\<rparr>)
        \<and> (\<exists>msg. handlePostImage_sniff pf fetch numStr nbytes body
                    = Some \<lparr>reply = Json 400 False msg None, fetches = []\<rparr>)"
    if "nbytes \<le> 1000000" "body \<noteq> JNull"
      "field_truthy body ''url'' \<longrightarrow> \<not> http_url (js_String numStr (the (get_prop body ''url'')))"
    using that proxyImage_rejects_url [OF post_url_case [OF that(3)], of pf fetch]
    by (simp add: handlePostImage_def handlePostImage_sniff_def)
  show ?thesis
    using proxyImage_rejects_url [of sp pf fetch] post by blast
qed

theorem bad_url_rejected_witness:
  "sp_get [] ''url'' = None
   \<and> status (reply (proxyImage fixture_platform (fetch_returns jpeg_as_text) [])) = Some 400
   \<and> fetches (proxyImage fixture_platform (fetch_returns jpeg_as_text) []) = []
   \<and> sp_get [(''url'', ''ftp://cdn/a'')] ''url'' = Some ''ftp://cdn/a''
   \<and> \<not> http_url ''ftp://cdn/a''
   \<and> status (reply (proxyImage_sniff fixture_platform (fetch_returns jpeg_as_text)
                      [(''url'', ''ftp://cdn/a'')])) = Some 400
   \<and> fetches (proxyImage_sniff fixture_platform (fetch_returns jpeg_as_text)
                [(''url'', ''ftp://cdn/a'')]) = []
   \<and> (2::nat) \<le> 1000000 \<and> JObj [] \<noteq> JNull \<and> \<not> field_truthy (JObj []) ''url''
   \<and> handlePostImage fixture_platform (fetch_returns jpeg_as_text) fixture_numStr 2 (JObj [])
       = Some \<lparr>reply = Json 400 False ''missing url parameter'' None, fetches = []\<rparr>"
proof -
  have a: "case sp_get [] ''url'' of None \<Rightarrow> True | Some u \<Rightarrow> \<not> http_url u"
    by (simp add: sp_get_def)
  have b: "case sp_get [(''url'', ''ftp://cdn/a'')] ''url'' of
             None \<Rightarrow> True | Some u \<Rightarrow> \<not> http_url u"
    by (simp add: sp_get_def not_http_url_ftp)
  have c: "\<not> field_truthy (JObj []) ''url''" by (simp add: field_truthy_def)
  from bad_url_rejected_when_proxyImage_runs
    [of "[]" fixture_platform "fetch_returns jpeg_as_text" 2 "JObj []" fixture_numStr] a c
  have 1: "status (reply (proxyImage fixture_platform (fetch_returns jpeg_as_text) [])) = Some 400
    \<and> fetches (proxyImage fixture_platform (fetch_returns jpeg_as_text) []) = []
    \<and> (\<exists>msg. handlePostImage fixture_platform (fetch_returns jpeg_as_text) fixture_numStr 2
                (JObj [])
              = Some \<lparr>reply = Json 400 False msg None, fetches = []\<rparr>)"
    by (auto simp: status_def)
  from bad_url_rejected_when_proxyImage_runs
    [of "[(''url'', ''ftp://cdn/a'')]" fixture_platform "fetch_returns jpeg_as_text" 2 "JObj []"
        fixture_numStr] b
  have 2: "status (reply (proxyImage_sniff fixture_platform (fetch_returns jpeg_as_text)
                      [(''url'', ''ftp://cdn/a'')])) = Some 400
    \<and> fetches (proxyImage_sniff fixture_platform (fetch_returns jpeg_as_text)
                [(''url'', ''ftp://cdn/a'')]) = []"
    by (auto simp: status_def)
  have 3: "handlePostImage fixture_platform (fetch_returns jpeg_as_text) fixture_numStr 2 (JObj [])
       = Some \<lparr>reply = Json 400 False ''missing url parameter'' None, fetches = []\<rparr>"
    using 1 c
    by (simp add: handlePostImage_def proxyImage_def post_url_param truthy_str_def bad_def)
  from 1 2 3 c show ?thesis by (simp add: sp_get_def not_http_url_ftp)
qed

text \<open>
  The claim as stated fails: a POST whose body is the JSON text \<open>null\<close> (4 bytes) has no
  \<open>url\<close>, and gets no reply at all, from either variant. Neither does a POST of 1000001
  bytes (an opening brace, 999999 spaces, a closing brace) that parses to \<open>{}\<close>.
\<close>

theorem post_without_url_gets_no_reply:
  "\<not> field_truthy JNull ''url''
   \<and> handlePostImage fixture_platform (fetch_returns jpeg_as_text) fixture_numStr 4 JNull = None
   \<and> handlePostImage_sniff fixture_platform (fetch_returns jpeg_as_text) fixture_numStr 4 JNull
       = None
   \<and> \<not> field_truthy (JObj []) ''url''
   \<and> handlePostImage fixture_platform (fetch_returns jpeg_as_text) fixture_numStr 1000001
        (JObj []) = None
   \<and> handlePostImage_sniff fixture_platform (fetch_returns jpeg_as_text) fixture_numStr 1000001
        (JObj []) = None"
  by (simp add: field_truthy_def handlePostImage_def handlePostImage_sniff_def)

subsection \<open>allowAny on POST\<close>

lemma post_allowAny_param:
  "sp_get (handlePostImage_params f body) ''allowAny'' =
     (if field_truthy body ''allowAny'' then Some ''1'' else None)"
  by (simp add: handlePostImage_params_def Let_def sp_get_foldl_append sp_get_set_if sp_get_set)
    (simp add: sp_get_def)

text \<open>
  C10. For POST, the \<open>allowAny\<close> flag that \<open>proxyImage\<close> reads from the parameters built
  by \<open>handlePostImage\<close> is set exactly when the body's \<open>allowAny\<close> field is truthy: the
  strings \<open>"false"\<close> and \<open>"0"\<close> enable it; \<open>false\<close>, \<open>0\<close>, \<open>null\<close> and an absent field
  do not.
\<close>

theorem post_allowAny_iff_truthy:
  "allowAny (handlePostImage_params numStr body) = field_truthy body ''allowAny''
   \<and> allowAny (handlePostImage_params numStr (JObj [(''allowAny'', JStr ''false'')]))
   \<and> allowAny (handlePostImage_params numStr (JObj [(''allowAny'', JStr ''0'')]))
   \<and> \<not> allowAny (handlePostImage_params numStr (JObj [(''allowAny'', JBool False)]))
   \<and> \<not> allowAny (handlePostImage_params numStr (JObj [(''allowAny'', JNum (Fin 0))]))
   \<and> \<not> allowAny (handlePostImage_params numStr (JObj [(''allowAny'', JNull)]))
   \<and> \<not> allowAny (handlePostImage_params numStr (JObj []))"
proof -
  have eq: "allowAny (handlePostImage_params numStr b) = field_truthy b ''allowAny''" for b
    by (simp add: allowAny_def post_allowAny_param)
  show ?thesis
    unfolding eq by (simp add: field_truthy_def)
qed

subsection \<open>Content-type resolution\<close>

lemma headersOut_content_type:
  "headersOut pf sp resp t ''content-type''
     = Some (if t = [] then ''application/octet-stream'' else t)"
  by (simp add: headersOut_def Let_def)

text \<open>The headers that \<open>res.writeHead\<close> accepts.\<close>

lemma valid_safe_char: "safe_char c \<Longrightarrow> valid_header_char c"
  by (auto simp: safe_char_def valid_header_char_def Let_def)

lemma valid_underscore: "valid_header_char CHR ''_''"
  by (simp add: valid_header_char_def)

lemma valid_sanitizeFilename: "valid_header_value (sanitizeFilename name)"
  by (auto simp: sanitizeFilename_def valid_header_value_def list_all_iff valid_safe_char
      valid_underscore)

lemma valid_constants:
  "valid_header_value ''application/octet-stream''" "valid_header_value ''no-store''"
  "valid_header_value ''file''" "valid_header_value ''inline''"
  "valid_header_value ''image/jpeg''" "valid_header_value ''image/png''"
  by code_simp+

lemma valid_append:
  "valid_header_value (a @ b) = (valid_header_value a \<and> valid_header_value b)"
  by (simp add: valid_header_value_def)

lemma valid_disposition:
  "valid_header_value (c @ ''; filename='' @ [CHR 0x22] @ f @ [CHR 0x22])
     = (valid_header_value c \<and> valid_header_value f)"
proof -
  have "valid_header_value ''; filename=''" "valid_header_value [CHR 0x22]" by code_simp+
  then show ?thesis unfolding valid_append by simp
qed

lemma valid_lower_char: "valid_header_char c \<Longrightarrow> valid_header_char (lower_char c)"
  by (auto simp: valid_header_char_def lower_char_def is_upper_def Let_def)

lemma valid_toLowerCase: "valid_header_value d \<Longrightarrow> valid_header_value (toLowerCase d)"
  by (simp add: valid_header_value_def toLowerCase_def list_all_iff valid_lower_char)

lemma headersOut_values:
  "\<exists>f. valid_header_value f
     \<and> headersOut pf sp resp t ''content-type''
         = Some (if t = [] then ''application/octet-stream'' else t)
     \<and> headersOut pf sp resp t ''cache-control'' = Some ''no-store''
     \<and> headersOut pf sp resp t ''content-disposition''
         = Some (cd sp @ ''; filename='' @ [CHR 0x22] @ f @ [CHR 0x22])
     \<and> headersOut pf sp resp t ''content-length''
         = (if truthy_str (up_header resp ''content-length'')
            then up_header resp ''content-length'' else None)"
proof -
  define n where "n = sanitizeFilename
    (js_or (sp_get sp ''filename'') (filenameFromDisposition pf (up_header resp ''content-disposition'')))"
  have "valid_header_value (if n = [] then ''file'' else n)"
    by (simp add: n_def valid_sanitizeFilename valid_constants)
  moreover have "headersOut pf sp resp t ''content-disposition''
         = Some (cd sp @ ''; filename='' @ [CHR 0x22] @ (if n = [] then ''file'' else n) @ [CHR 0x22])"
    by (simp add: headersOut_def Let_def n_def)
  moreover have "headersOut pf sp resp t ''content-type''
         = Some (if t = [] then ''application/octet-stream'' else t)"
    "headersOut pf sp resp t ''cache-control'' = Some ''no-store''"
    by (simp_all add: headersOut_def Let_def)
  moreover have "headersOut pf sp resp t ''content-length''
         = (if truthy_str (up_header resp ''content-length'')
            then up_header resp ''content-length'' else None)"
    by (auto simp: headersOut_def Let_def truthy_str_def split: option.splits)
  ultimately show ?thesis by blast
qed

lemma writeHead_accepts:
  assumes "valid_header_value (cd sp)" and "valid_header_value t"
    and "case up_header resp ''content-length'' of
           None \<Rightarrow> True | Some l \<Rightarrow> valid_header_value l"
  shows "writeHead_throws (headersOut pf sp resp t) = None"
proof -
  obtain f where f: "valid_header_value f"
    "headersOut pf sp resp t ''content-type''
         = Some (if t = [] then ''application/octet-stream'' else t)"
    "headersOut pf sp resp t ''cache-control'' = Some ''no-store''"
    "headersOut pf sp resp t ''content-disposition''
         = Some (cd sp @ ''; filename='' @ [CHR 0x22] @ f @ [CHR 0x22])"
    "headersOut pf sp resp t ''content-length''
         = (if truthy_str (up_header resp ''content-length'')
            then up_header resp ''content-length'' else None)"
    using headersOut_values by blast
  have d: "valid_header_value (cd sp @ ''; filename='' @ [CHR 0x22] @ f @ [CHR 0x22])"
    unfolding valid_disposition using assms(1) f(1) by simp
  have l: "case headersOut pf sp resp t ''content-length'' of
             None \<Rightarrow> True | Some v \<Rightarrow> valid_header_value v"
    using assms(3) unfolding f(5) by (simp split: option.splits)
  have t: "valid_header_value (if t = [] then ''application/octet-stream'' else t)"
    using assms(2) by (simp add: valid_constants)
  show ?thesis
    using d l t by (simp add: writeHead_throws_def f(2,3,4) valid_constants split: option.splits)
qed

lemma writeHead_refuses_disposition:
  assumes "\<not> valid_header_value (cd sp)" and "valid_header_value t"
  shows "writeHead_throws (headersOut pf sp resp t) = Some ''content-disposition''"
proof -
  obtain f where f: "valid_header_value f"
    "headersOut pf sp resp t ''content-type''
         = Some (if t = [] then ''application/octet-stream'' else t)"
    "headersOut pf sp resp t ''cache-control'' = Some ''no-store''"
    "headersOut pf sp resp t ''content-disposition''
         = Some (cd sp @ ''; filename='' @ [CHR 0x22] @ f @ [CHR 0x22])"
    using headersOut_values by blast
  have d: "\<not> valid_header_value (cd sp @ ''; filename='' @ [CHR 0x22] @ f @ [CHR 0x22])"
    unfolding valid_disposition using assms(1) by simp
  have t: "valid_header_value (if t = [] then ''application/octet-stream'' else t)"
    using assms(2) by (simp add: valid_constants)
  show ?thesis
    unfolding writeHead_throws_def using f(2,3) d t unfolding f(4) [symmetric]
    by (simp add: valid_constants f(4))
qed

lemma sniff_jpeg:
  assumes "take 3 b = [0xff, 0xd8, 0xff]"
  shows "sniffImageType b = Some ''image/jpeg''"
proof -
  have "length (take 3 b) = 3" using assms by simp
  then have l: "length b \<ge> 3" by simp
  from assms have "take 3 b ! 0 = 0xff" "take 3 b ! 1 = 0xd8" "take 3 b ! 2 = 0xff"
    by simp_all
  then have "b ! 0 = 0xff" "b ! 1 = 0xd8" "b ! 2 = 0xff" by simp_all
  with l show ?thesis by (simp add: sniffImageType_def)
qed

lemma lower_text_plain: "toLowerCase ''text/plain'' = ''text/plain''"
  by code_simp


lemma sniffing_serves_jpeg:
  assumes "truthy_str (sp_get sp ''url'')" and "http_url (the (sp_get sp ''url''))"
    and "\<not> allowAny sp"
    and "fetch (the (sp_get sp ''url'')) (parseHeadersFromQuery_defaults sp) (timeoutMs sp)
           = FetchReturns resp"
    and "up_ok resp" and "up_first resp = ReadChunk b" and "take 3 b = [0xff, 0xd8, 0xff]"
    and "up_header resp ''content-type'' = Some ''text/plain''"
    and "writeHead_throws (headersOut pf sp resp ''image/jpeg'') = None"
  shows "reply (proxyImage_sniff pf fetch sp) = Head 200 (headersOut pf sp resp ''image/jpeg'')"
  using assms
  by (simp add: proxyImage_sniff_def proxyImage_sniff_reply_def Let_def sniff_jpeg js_or_def
      truthy_str_def lower_text_plain outType_def startsWith_def)

lemma plain_rejects_text:
  assumes "truthy_str (sp_get sp ''url'')" and "http_url (the (sp_get sp ''url''))"
    and "\<not> allowAny sp"
    and "fetch (the (sp_get sp ''url'')) (parseHeadersFromQuery sp) (timeoutMs sp)
           = FetchReturns resp"
    and "up_ok resp"
    and "up_header resp ''content-type'' = Some ''text/plain''"
  shows "reply (proxyImage pf fetch sp)
           = Json 415 False ''unsupported content-type: text/plain'' None"
  using assms
  by (simp add: proxyImage_def proxyImage_reply_def Let_def js_or_def bad_def
      truthy_str_def lower_text_plain startsWith_def)

lemma cdn_params:
  "truthy_str (sp_get [(''url'', ''http://cdn/a'')] ''url'')"
  "the (sp_get [(''url'', ''http://cdn/a'')] ''url'') = ''http://cdn/a''"
  "\<not> allowAny [(''url'', ''http://cdn/a'')]"
  "cd [(''url'', ''http://cdn/a'')] = ''inline''"
  by (simp_all add: sp_get_def truthy_str_def allowAny_def cd_def js_or_def)

text \<open>
  C1, as the code has it. In the sniffing variant, a 2xx upstream response declared
  \<open>text/plain\<close> whose first chunk starts with FF D8 FF is served with status 200 and
  content type \<open>image/jpeg\<close> (\<open>allowAny\<close> unset), provided \<open>res.writeHead\<close> accepts the
  headers: the caller's \<open>contentDisposition\<close> and the upstream \<open>content-length\<close> hold no
  character it refuses. server.js has no sniffing: it answers the same response with 415.
\<close>

theorem sniffed_jpeg_served_by_sniffing_variant:
  assumes "truthy_str (sp_get sp ''url'')" and "http_url (the (sp_get sp ''url''))"
    and "\<not> allowAny sp"
    and "\<And>h. fetch (the (sp_get sp ''url'')) h (timeoutMs sp) = FetchReturns resp"
    and "up_ok resp" and "up_first resp = ReadChunk b" and "take 3 b = [0xff, 0xd8, 0xff]"
    and "up_header resp ''content-type'' = Some ''text/plain''"
    and "valid_header_value (cd sp)"
    and "case up_header resp ''content-length'' of
           None \<Rightarrow> True | Some l \<Rightarrow> valid_header_value l"
  shows "status (reply (proxyImage_sniff pf fetch sp)) = Some 200
    \<and> content_type (reply (proxyImage_sniff pf fetch sp)) = Some ''image/jpeg''
    \<and> reply (proxyImage pf fetch sp)
        = Json 415 False ''unsupported content-type: text/plain'' None"
proof -
  have w: "writeHead_throws (headersOut pf sp resp ''image/jpeg'') = None"
    using assms(9,10) by (intro writeHead_accepts) (simp_all add: valid_constants)
  have "reply (proxyImage_sniff pf fetch sp) = Head 200 (headersOut pf sp resp ''image/jpeg'')"
    using assms w by (intro sniffing_serves_jpeg) simp_all
  moreover have "reply (proxyImage pf fetch sp)
      = Json 415 False ''unsupported content-type: text/plain'' None"
    using assms by (intro plain_rejects_text) simp_all
  ultimately show ?thesis
    by (simp add: status_def content_type_def headersOut_content_type)
qed

theorem sniffed_jpeg_served_witness:
  "truthy_str (sp_get [(''url'', ''http://cdn/a'')] ''url'')
   \<and> http_url (the (sp_get [(''url'', ''http://cdn/a'')] ''url''))
   \<and> \<not> allowAny [(''url'', ''http://cdn/a'')]
   \<and> up_ok jpeg_as_text \<and> up_first jpeg_as_text = ReadChunk [0xff, 0xd8, 0xff, 0xe0]
   \<and> up_header jpeg_as_text ''content-type'' = Some ''text/plain''
   \<and> valid_header_value (cd [(''url'', ''http://cdn/a'')])
   \<and> up_header jpeg_as_text ''content-length'' = None
   \<and> status (reply (proxyImage_sniff fixture_platform (fetch_returns jpeg_as_text)
                      [(''url'', ''http://cdn/a'')])) = Some 200
   \<and> content_type (reply (proxyImage_sniff fixture_platform (fetch_returns jpeg_as_text)
                            [(''url'', ''http://cdn/a'')])) = Some ''image/jpeg''"
proof -
  have f: "fetch_returns jpeg_as_text (the (sp_get [(''url'', ''http://cdn/a'')] ''url'')) h
             (timeoutMs [(''url'', ''http://cdn/a'')]) = FetchReturns jpeg_as_text" for h
    by (simp add: fetch_returns_def)
  have r: "up_ok jpeg_as_text" "up_first jpeg_as_text = ReadChunk [0xff, 0xd8, 0xff, 0xe0]"
    "up_header jpeg_as_text ''content-type'' = Some ''text/plain''"
    by (simp_all add: jpeg_as_text_def)
  have t: "take 3 [0xff, 0xd8, 0xff, 0xe0 :: 8 word] = [0xff, 0xd8, 0xff]" by simp
  have u: "http_url (the (sp_get [(''url'', ''http://cdn/a'')] ''url''))"
    by (simp add: cdn_params http_url_cdn)
  have v: "valid_header_value (cd [(''url'', ''http://cdn/a'')])"
    by (simp add: cdn_params valid_constants)
  have n: "up_header jpeg_as_text ''content-length'' = None" by (simp add: jpeg_as_text_def)
  then have l: "case up_header jpeg_as_text ''content-length'' of
           None \<Rightarrow> True | Some l \<Rightarrow> valid_header_value l" by simp
  have "status (reply (proxyImage_sniff fixture_platform (fetch_returns jpeg_as_text)
                      [(''url'', ''http://cdn/a'')])) = Some 200
    \<and> content_type (reply (proxyImage_sniff fixture_platform (fetch_returns jpeg_as_text)
                            [(''url'', ''http://cdn/a'')])) = Some ''image/jpeg''
    \<and> reply (proxyImage fixture_platform (fetch_returns jpeg_as_text) [(''url'', ''http://cdn/a'')])
        = Json 415 False ''unsupported content-type: text/plain'' None"
    by (rule sniffed_jpeg_served_by_sniffing_variant
          [where resp = jpeg_as_text and b = "[0xff, 0xd8, 0xff, 0xe0]"])
       (fact cdn_params(1) u cdn_params(3) f r t v l)+
  then show ?thesis using cdn_params(1,3) u r v n by simp
qed

text \<open>
  The claim as stated fails on server.js: the same response (2xx, declared
  \<open>text/plain\<close>, body starting FF D8 FF, \<open>allowAny\<close> unset) is rejected with 415.
\<close>

theorem plain_relay_rejects_sniffable_jpeg:
  "up_ok jpeg_as_text \<and> up_first jpeg_as_text = ReadChunk [0xff, 0xd8, 0xff, 0xe0]
   \<and> up_header jpeg_as_text ''content-type'' = Some ''text/plain''
   \<and> \<not> allowAny [(''url'', ''http://cdn/a'')]
   \<and> reply (proxyImage fixture_platform (fetch_returns jpeg_as_text) [(''url'', ''http://cdn/a'')])
       = Json 415 False ''unsupported content-type: text/plain'' None"
proof -
  have "reply (proxyImage fixture_platform (fetch_returns jpeg_as_text) [(''url'', ''http://cdn/a'')])
       = Json 415 False ''unsupported content-type: text/plain'' None"
    by (rule plain_rejects_text [where resp = jpeg_as_text])
      (simp_all add: cdn_params http_url_cdn fetch_returns_def jpeg_as_text_def)
  then show ?thesis by (simp add: cdn_params jpeg_as_text_def)
qed


lemma declared_kept_outType:
  "startsWith t ''image/'' \<Longrightarrow> outType t sniffed = t"
  by (auto simp: outType_def startsWith_def)


text \<open>
  When \<open>res.writeHead\<close> refuses the caller's \<open>contentDisposition\<close>, an image response is
  not served: server.js writes nothing and the sniffing variant answers 500.
\<close>

lemma refused_disposition_not_served:
  assumes "startsWith (toLowerCase d) ''image/''" and "up_ok resp"
    and "up_header resp ''content-type'' = Some d" and "valid_header_value d"
    and "up_first resp = ReadChunk b \<or> up_first resp = ReadDone"
    and "\<not> valid_header_value (cd sp)"
  shows "proxyImage_reply pf sp resp = NoReply"
    and "proxyImage_sniff_reply pf sp resp
           = Json 500 False ''stream setup error'' (Some (writeHead_error pf ''content-disposition''))"
proof -
  from assms(1) have ne: "d \<noteq> []" "toLowerCase d \<noteq> []"
    by (auto simp: startsWith_def toLowerCase_def)
  have w: "writeHead_throws (headersOut pf sp resp (toLowerCase d)) = Some ''content-disposition''"
    using assms(4,6) by (intro writeHead_refuses_disposition) (simp_all add: valid_toLowerCase)
  show "proxyImage_reply pf sp resp = NoReply"
    using assms ne w by (simp add: proxyImage_reply_def Let_def js_or_def truthy_str_def)
  show "proxyImage_sniff_reply pf sp resp
           = Json 500 False ''stream setup error'' (Some (writeHead_error pf ''content-disposition''))"
    using assms ne w
    by (auto simp: proxyImage_sniff_reply_def Let_def js_or_def truthy_str_def
        declared_kept_outType bad_def)
qed




subsection \<open>The upstream timeout\<close>

lemma timeoutMs_absent: "\<not> truthy_str (sp_get sp ''timeout'') \<Longrightarrow> timeoutMs sp = Fin 15000"
  by (simp add: timeoutMs_def)

lemma timeoutMs_finite:
  "truthy_str (sp_get sp ''timeout'') \<Longrightarrow> Number_str (the (sp_get sp ''timeout'')) = Fin r \<Longrightarrow>
   timeoutMs sp = Fin (min (max r 1000) 120000)"
  by (simp add: timeoutMs_def min_def max_def)

lemma timeoutMs_not_numeric:
  "truthy_str (sp_get sp ''timeout'') \<Longrightarrow> Number_str (the (sp_get sp ''timeout'')) = NaN \<Longrightarrow>
   timeoutMs sp = NaN"
  by (simp add: timeoutMs_def)

text \<open>
  C2. The timeout is \<open>Number(timeout)\<close> clamped into [1000, 120000] for a numeric
  value and 15000 for an absent one (\<open>timeoutMs_finite\<close>, \<open>timeoutMs_absent\<close>), but a
  value that is not numeric is not replaced by 15000: \<open>Number\<close> gives \<open>NaN\<close>, which
  \<open>Math.max\<close> and \<open>Math.min\<close> pass through, so the timer is armed with \<open>NaN\<close>.
\<close>

theorem timeout_not_numeric_is_NaN:
  "timeoutMs [(''url'', ''http://cdn/a''), (''timeout'', ''abc'')] = NaN
   \<and> timeoutMs [(''url'', ''http://cdn/a''), (''timeout'', ''abc'')] \<noteq> Fin 15000
   \<and> timeoutMs [(''url'', ''http://cdn/a'')] = Fin 15000
   \<and> timeoutMs [(''url'', ''http://cdn/a''), (''timeout'', ''500'')] = Fin 1000"
proof -
  have "literal_value ''abc'' = NaN" by code_simp
  then have "Number_str ''abc'' = NaN" by (simp add: Number_str_def)
  moreover have "literal_value ''500'' = Fin 500" by code_simp
  then have "Number_str ''500'' = Fin 500" by (simp add: Number_str_def binary64_def)
  ultimately show ?thesis
    by (simp add: timeoutMs_def sp_get_def truthy_str_def)
qed

section \<open>The downloader (bin/cdn-dl.js)\<close>

subsection \<open>parseArgs\<close>

text \<open>
  A header value may be \<open>undefined\<close> (\<open>--referer\<close> as the last argument), so header
  values are optional strings; so are the URLs pushed by \<open>--url\<close> and the \<open>input\<close> and
  \<open>outDir\<close> options. \<open>-h\<close> and \<open>--help\<close> print the help and exit with status 0.
\<close>

type_synonym dl_headers = "string \<Rightarrow> string option option"

record opts =
  o_urls :: "string option list"
  o_headers :: dl_headers
  o_input :: "string option"
  o_outDir :: "string option"
  o_concurrency :: jsnum
  o_retries :: jsnum

datatype parsed = HelpExit | Parsed opts

text \<open>\<open>argv[++i]\<close>: the next argument, \<open>undefined\<close> past the end.\<close>

definition next_arg :: "string list \<Rightarrow> string option" where
  "next_arg rest = (case rest of [] \<Rightarrow> None | v # _ \<Rightarrow> Some v)"

text \<open>\<open>Number(v || d) || d\<close>.\<close>

definition number_or :: "string option \<Rightarrow> rat \<Rightarrow> jsnum" where
  "number_or v d =
     (let n = (if truthy_str v then Number_str (the v) else Fin d)
      in if num_truthy n then n else Fin d)"

definition header_arg :: "dl_headers \<Rightarrow> string \<Rightarrow> dl_headers" where
  "header_arg headers h =
     (let k0 = takeWhile (\<lambda>c. c \<noteq> CHR '':'') h in
      if CHR '':'' \<in> set h \<and> k0 \<noteq> [] \<and> trim k0 \<noteq> ''__proto__''
      then headers(trim k0 \<mapsto> Some (trim (tl (dropWhile (\<lambda>c. c \<noteq> CHR '':'') h))))
      else headers)"

definition cookie_arg :: "dl_headers \<Rightarrow> string \<Rightarrow> dl_headers" where
  "cookie_arg headers v =
     headers(''Cookie'' \<mapsto>
       Some ((case headers ''Cookie'' of
                Some (Some c) \<Rightarrow> if c = [] then [] else c @ ''; ''
              | _ \<Rightarrow> []) @ v))"

text \<open>
  One turn of the \<open>for\<close> loop on argument \<open>a\<close>, with \<open>rest\<close> the arguments after it:
  the options after the \<open>switch\<close> and the arguments still to read, or \<open>None\<close> when the
  process exits.
\<close>

definition parse_step :: "opts \<Rightarrow> string \<Rightarrow> string list \<Rightarrow> (opts \<times> string list) option" where
  "parse_step opt a rest =
     (let v = next_arg rest; more = tl rest in
      if a = ''--url'' then Some (opt\<lparr>o_urls := o_urls opt @ [v]\<rparr>, more)
      else if a = ''--input'' then Some (opt\<lparr>o_input := v\<rparr>, more)
      else if a = ''--output'' then Some (opt\<lparr>o_outDir := v\<rparr>, more)
      else if a = ''--concurrency'' then Some (opt\<lparr>o_concurrency := number_or v 4\<rparr>, more)
      else if a = ''--retry'' then Some (opt\<lparr>o_retries := number_or v 2\<rparr>, more)
      else if a = ''--header''
      then Some (if truthy_str v then opt\<lparr>o_headers := header_arg (o_headers opt) (the v)\<rparr>
                 else opt, more)
      else if a = ''--cookie''
      then Some (if truthy_str v then opt\<lparr>o_headers := cookie_arg (o_headers opt) (the v)\<rparr>
                 else opt, more)
      else if a = ''--auth''
      then Some (if truthy_str v
                 then opt\<lparr>o_headers := (o_headers opt)(''Authorization'' \<mapsto>
                        Some (if startsWith (the v) ''Bearer '' \<or> startsWith (the v) ''Basic ''
                              then the v else ''Bearer '' @ the v))\<rparr>
                 else opt, more)
      else if a = ''--referer''
      then Some (opt\<lparr>o_headers := (o_headers opt)(''Referer'' \<mapsto> v)\<rparr>, more)
      else if a = ''--origin''
      then Some (opt\<lparr>o_headers := (o_headers opt)(''Origin'' \<mapsto> v)\<rparr>, more)
      else if a = ''-h'' \<or> a = ''--help'' then None
      else Some (if a \<noteq> [] \<and> \<not> startsWith a ''-'' then opt\<lparr>o_urls := o_urls opt @ [Some a]\<rparr>
                 else opt, rest))"

lemma parse_step_rest:
  "parse_step opt a rest = Some (opt', rest') \<Longrightarrow> rest' = rest \<or> rest' = tl rest"
  unfolding parse_step_def Let_def by (simp split: if_splits)

function parseArgs_from :: "opts \<Rightarrow> string list \<Rightarrow> parsed" where
  "parseArgs_from opt [] = Parsed opt"
| "parseArgs_from opt (a # rest) =
     (case parse_step opt a rest of
        None \<Rightarrow> HelpExit
      | Some (opt', rest') \<Rightarrow> parseArgs_from opt' rest')"
  by pat_completeness auto
termination
  by (relation "measure (\<lambda>(opt, argv). length argv)") (auto dest!: parse_step_rest)

definition initial_opts :: opts where
  "initial_opts = \<lparr>o_urls = [], o_headers = Map.empty, o_input = None,
     o_outDir = Some ''downloads'', o_concurrency = Fin 4, o_retries = Fin 2\<rparr>"

definition parseArgs :: "string list \<Rightarrow> parsed" where
  "parseArgs argv = parseArgs_from initial_opts argv"

lemma number_or_nonzero: "d \<noteq> 0 \<Longrightarrow> number_or v d \<noteq> Fin 0 \<and> number_or v d \<noteq> NaN"
  by (cases "if truthy_str v then Number_str (the v) else Fin d")
     (auto simp: number_or_def Let_def split: if_splits)

lemma Number_str_zero: "Number_str ''0'' = Fin 0"
proof -
  have "literal_value ''0'' = Fin 0" by code_simp
  then show ?thesis by (simp add: Number_str_def binary64_def)
qed

lemma number_or_zero: "number_or (Some ''0'') d = Fin d"
  by (simp add: number_or_def truthy_str_def Number_str_zero)

lemma retry_zero_step:
  "parseArgs_from opt (''--retry'' # ''0'' # rest)
     = parseArgs_from (opt\<lparr>o_retries := Fin 2\<rparr>) rest"
  by (simp add: parse_step_def next_arg_def number_or_zero)

lemma concurrency_zero_step:
  "parseArgs_from opt (''--concurrency'' # ''0'' # rest)
     = parseArgs_from (opt\<lparr>o_concurrency := Fin 4\<rparr>) rest"
  by (simp add: parse_step_def next_arg_def number_or_zero)

definition nonzero_opts :: "opts \<Rightarrow> bool" where
  "nonzero_opts opt = (o_retries opt \<noteq> Fin 0 \<and> o_retries opt \<noteq> NaN
     \<and> o_concurrency opt \<noteq> Fin 0 \<and> o_concurrency opt \<noteq> NaN)"

lemma parse_step_nonzero:
  assumes "nonzero_opts opt" "parse_step opt a rest = Some (opt', rest')"
  shows "nonzero_opts opt'"
proof -
  have n2: "number_or v 2 \<noteq> Fin 0 \<and> number_or v 2 \<noteq> NaN" for v
    by (rule number_or_nonzero) simp
  have n4: "number_or v 4 \<noteq> Fin 0 \<and> number_or v 4 \<noteq> NaN" for v
    by (rule number_or_nonzero) simp
  from assms(2) have "o_retries opt' = o_retries opt \<or> (\<exists>v. o_retries opt' = number_or v 2)"
    unfolding parse_step_def Let_def by (auto split: if_splits)
  with assms(1) n2 have r: "o_retries opt' \<noteq> Fin 0 \<and> o_retries opt' \<noteq> NaN"
    unfolding nonzero_opts_def by metis
  from assms(2)
  have "o_concurrency opt' = o_concurrency opt \<or> (\<exists>v. o_concurrency opt' = number_or v 4)"
    unfolding parse_step_def Let_def by (auto split: if_splits)
  with assms(1) n4 have "o_concurrency opt' \<noteq> Fin 0 \<and> o_concurrency opt' \<noteq> NaN"
    unfolding nonzero_opts_def by metis
  with r show ?thesis by (simp add: nonzero_opts_def)
qed

lemma parseArgs_from_nonzero:
  "nonzero_opts opt \<Longrightarrow> parseArgs_from opt argv = Parsed r \<Longrightarrow> nonzero_opts r"
proof (induction opt argv rule: parseArgs_from.induct)
  case (1 opt)
  then show ?case by simp
next
  case (2 opt a rest)
  show ?case
  proof (cases "parse_step opt a rest")
    case None
    with "2.prems" show ?thesis by simp
  next
    case (Some x)
    obtain opt' rest' where x: "x = (opt', rest')" by (cases x)
    with Some "2.prems" have "parseArgs_from opt' rest' = Parsed r" by simp
    moreover have "nonzero_opts opt'"
      using parse_step_nonzero [OF "2.prems"(1)] Some x by simp
    ultimately show ?thesis using "2.IH" [OF Some x [symmetric]] by simp
  qed
qed

lemma nonzero_initial: "nonzero_opts initial_opts"
  by (simp add: nonzero_opts_def initial_opts_def)

text \<open>
  C9. An explicit 0 cannot be told from leaving the flag out: \<open>--retry 0\<close> sets
  \<open>retries\<close> to 2 and \<open>--concurrency 0\<close> sets \<open>concurrency\<close> to 4, wherever they stand on
  the command line; alone they give the same options as no argument at all; and no
  command line makes \<open>parseArgs\<close> return 0 retries or 0 concurrency.
\<close>

theorem zero_flag_value_is_default:
  "parseArgs_from opt (''--retry'' # ''0'' # rest)
     = parseArgs_from (opt\<lparr>o_retries := Fin 2\<rparr>) rest
   \<and> parseArgs_from opt (''--concurrency'' # ''0'' # rest)
     = parseArgs_from (opt\<lparr>o_concurrency := Fin 4\<rparr>) rest
   \<and> parseArgs [''--retry'', ''0''] = parseArgs []
   \<and> parseArgs [''--concurrency'', ''0''] = parseArgs []
   \<and> (parseArgs argv = Parsed r \<longrightarrow> o_retries r \<noteq> Fin 0 \<and> o_concurrency r \<noteq> Fin 0)"
proof -
  have "parseArgs [''--retry'', ''0''] = parseArgs []"
    unfolding parseArgs_def retry_zero_step by (simp add: initial_opts_def)
  moreover have "parseArgs [''--concurrency'', ''0''] = parseArgs []"
    unfolding parseArgs_def concurrency_zero_step by (simp add: initial_opts_def)
  moreover have "o_retries r \<noteq> Fin 0 \<and> o_concurrency r \<noteq> Fin 0" if "parseArgs argv = Parsed r"
    using parseArgs_from_nonzero [OF nonzero_initial, of argv r] that
    by (simp add: parseArgs_def nonzero_opts_def)
  ultimately show ?thesis
    using retry_zero_step [of opt rest] concurrency_zero_step [of opt rest] by blast
qed

theorem zero_flag_value_witness:
  "parseArgs [''--retry'', ''0'', ''--concurrency'', ''0''] = Parsed initial_opts
   \<and> o_retries initial_opts = Fin 2 \<and> o_concurrency initial_opts = Fin 4
   \<and> o_retries initial_opts \<noteq> Fin 0 \<and> o_concurrency initial_opts \<noteq> Fin 0"
proof -
  have p: "parseArgs [''--retry'', ''0'', ''--concurrency'', ''0''] = Parsed initial_opts"
    unfolding parseArgs_def retry_zero_step concurrency_zero_step
    by (simp add: initial_opts_def)
  with zero_flag_value_is_default
    [of initial_opts "[]" "[''--retry'', ''0'', ''--concurrency'', ''0'']" initial_opts]
  show ?thesis by (simp add: initial_opts_def)
qed

subsection \<open>The Authorization header\<close>

lemma pushHeader_other:
  "k' \<noteq> ''Cookie'' \<Longrightarrow> k \<noteq> k' \<Longrightarrow> pushHeader h k v k' = h k'"
  by (simp add: pushHeader_def)

lemma lower_Authorization: "toLowerCase ''Authorization'' \<noteq> ''cookie''"
  by (simp add: toLowerCase_def)

lemma pushHeader_Authorization: "pushHeader h ''Authorization'' v ''Authorization'' = Some v"
  by (simp add: pushHeader_def lower_Authorization)

lemma foldl_cookie_other:
  "k' \<noteq> ''Cookie'' \<Longrightarrow> foldl (\<lambda>h c. pushHeader h ''Cookie'' c) h cs k' = h k'"
  by (induction cs arbitrary: h) (simp_all add: pushHeader_other)

lemma parseHeaders_auth:
  assumes "sp_get sp ''auth'' = Some a" "a \<noteq> []"
  shows "parseHeadersFromQuery sp ''Authorization'' =
     Some (if startsWith a ''Bearer '' \<or> startsWith a ''Basic '' then a else ''Bearer '' @ a)"
  using assms
  by (simp add: parseHeadersFromQuery_def Let_def foldl_cookie_other pushHeader_other
      pushHeader_Authorization truthy_str_def)

lemma parseHeaders_defaults_auth:
  "parseHeadersFromQuery_defaults sp ''Authorization'' = parseHeadersFromQuery sp ''Authorization''"
  by (simp add: parseHeadersFromQuery_defaults_def Let_def)

lemma auth_step:
  "v \<noteq> [] \<Longrightarrow> parseArgs_from opt (''--auth'' # v # rest) =
     parseArgs_from (opt\<lparr>o_headers := (o_headers opt)(''Authorization'' \<mapsto>
        Some (if startsWith v ''Bearer '' \<or> startsWith v ''Basic '' then v else ''Bearer '' @ v))\<rparr>)
       rest"
  by (simp add: parse_step_def next_arg_def truthy_str_def)

text \<open>
  C8. For a non-empty \<open>auth\<close> value \<open>a\<close>, the \<open>Authorization\<close> header is \<open>a\<close> itself when
  \<open>a\<close> starts with \<open>Bearer \<close> or \<open>Basic \<close>, and \<open>Bearer \<close> followed by \<open>a\<close> otherwise: in
  the headers the relay builds (both variants, whatever the other parameters), and in
  the options of the downloader once \<open>--auth a\<close> is read.
\<close>

theorem authorization_header_rule:
  assumes "a \<noteq> []"
  shows "(sp_get sp ''auth'' = Some a \<longrightarrow>
            parseHeadersFromQuery sp ''Authorization'' =
              Some (if startsWith a ''Bearer '' \<or> startsWith a ''Basic '' then a else ''Bearer '' @ a)
          \<and> parseHeadersFromQuery_defaults sp ''Authorization'' =
              Some (if startsWith a ''Bearer '' \<or> startsWith a ''Basic '' then a else ''Bearer '' @ a))
    \<and> parseArgs_from opt (''--auth'' # a # rest) =
        parseArgs_from (opt\<lparr>o_headers := (o_headers opt)(''Authorization'' \<mapsto>
          Some (if startsWith a ''Bearer '' \<or> startsWith a ''Basic '' then a else ''Bearer '' @ a))\<rparr>)
          rest
    \<and> parseArgs [''--auth'', a] =
        Parsed (initial_opts\<lparr>o_headers := [''Authorization'' \<mapsto>
          Some (if startsWith a ''Bearer '' \<or> startsWith a ''Basic '' then a else ''Bearer '' @ a)]\<rparr>)"
proof -
  have "parseArgs [''--auth'', a] =
        Parsed (initial_opts\<lparr>o_headers := [''Authorization'' \<mapsto>
          Some (if startsWith a ''Bearer '' \<or> startsWith a ''Basic '' then a else ''Bearer '' @ a)]\<rparr>)"
    unfolding parseArgs_def auth_step [OF assms] by (simp add: initial_opts_def)
  then show ?thesis
    using assms auth_step [OF assms, of opt rest]
    by (simp add: parseHeaders_auth parseHeaders_defaults_auth)
qed

theorem authorization_header_witness:
  "''abc123'' \<noteq> [] \<and> ''Basic dXNlcg=='' \<noteq> []
   \<and> parseHeadersFromQuery [(''header'', ''Authorization: x''), (''auth'', ''abc123'')]
        ''Authorization'' = Some ''Bearer abc123''
   \<and> parseHeadersFromQuery_defaults [(''auth'', ''Basic dXNlcg=='')] ''Authorization''
        = Some ''Basic dXNlcg==''
   \<and> parseArgs [''--auth'', ''abc123'']
        = Parsed (initial_opts\<lparr>o_headers := [''Authorization'' \<mapsto> Some ''Bearer abc123'']\<rparr>)"
proof -
  have n: "''abc123'' \<noteq> []" "''Basic dXNlcg=='' \<noteq> []" by simp_all
  have g: "sp_get [(''header'', ''Authorization: x''), (''auth'', ''abc123'')] ''auth'' = Some ''abc123''"
    "sp_get [(''auth'', ''Basic dXNlcg=='')] ''auth'' = Some ''Basic dXNlcg==''"
    by (simp_all add: sp_get_def)
  from authorization_header_rule [OF n(1),
      of "[(''header'', ''Authorization: x''), (''auth'', ''abc123'')]" initial_opts "[]"]
    authorization_header_rule [OF n(2), of "[(''auth'', ''Basic dXNlcg=='')]" initial_opts "[]"]
  show ?thesis using g by (simp add: startsWith_def)
qed

subsection \<open>Paths\<close>

text \<open>
  The functions of Node's \<open>path\<close> module that \<open>uniquePath\<close> calls, for POSIX paths.
  \<open>path.normalize\<close> drops empty and \<open>.\<close> segments, resolves \<open>..\<close> against the segment
  before it, and keeps a leading and a trailing slash. \<open>path.join\<close> joins its non-empty
  arguments with \<open>/\<close> and normalizes. \<open>path.extname\<close> is the text from the last dot of the
  last segment, empty when there is no dot, when the dot starts the segment, or when the
  segment is \<open>..\<close>. \<open>path.basename\<close> is the last segment, without the suffix when it
  ends with it and is longer.
\<close>

fun split_slash :: "string \<Rightarrow> string list" where
  "split_slash [] = [[]]"
| "split_slash (c # cs) =
     (if c = CHR ''/'' then [] # split_slash cs
      else (case split_slash cs of [] \<Rightarrow> [[c]] | s # ss \<Rightarrow> (c # s) # ss))"

definition normalize_step :: "bool \<Rightarrow> string list \<Rightarrow> string \<Rightarrow> string list" where
  "normalize_step allowAboveRoot res seg =
     (if seg = [] \<or> seg = ''.'' then res
      else if seg = ''..'' then
        (if res \<noteq> [] \<and> last res \<noteq> ''..'' then butlast res
         else if allowAboveRoot then res @ [''..''] else res)
      else res @ [seg])"

fun join_slash :: "string list \<Rightarrow> string" where
  "join_slash [] = []"
| "join_slash [s] = s"
| "join_slash (s # t # r) = s @ ''/'' @ join_slash (t # r)"

definition path_normalize :: "string \<Rightarrow> string" where
  "path_normalize path =
     (if path = [] then ''.''
      else
        let isAbsolute = (hd path = CHR ''/'');
            trailingSeparator = (last path = CHR ''/'');
            p = join_slash (foldl (normalize_step (\<not> isAbsolute)) [] (split_slash path))
        in if p = [] then (if isAbsolute then ''/'' else if trailingSeparator then ''./'' else ''.'')
           else (if isAbsolute then ''/'' else []) @ p @ (if trailingSeparator then ''/'' else []))"

definition path_join :: "string \<Rightarrow> string \<Rightarrow> string" where
  "path_join a b =
     (let joined = (if a = [] then b else if b = [] then a else a @ ''/'' @ b)
      in if joined = [] then ''.'' else path_normalize joined)"

text \<open>The last segment of a path, trailing slashes ignored.\<close>

definition last_part :: "string \<Rightarrow> string" where
  "last_part path =
     rev (takeWhile (\<lambda>c. c \<noteq> CHR ''/'') (dropWhile (\<lambda>c. c = CHR ''/'') (rev path)))"

definition path_extname :: "string \<Rightarrow> string" where
  "path_extname path =
     (let part = last_part path;
          ext = CHR ''.'' # rev (takeWhile (\<lambda>c. c \<noteq> CHR ''.'') (rev part))
      in if CHR ''.'' \<notin> set part \<or> length ext = length part \<or> part = ''..'' then [] else ext)"

text \<open>
  \<open>path.basename(path, suffix)\<close>. Two corners of Node's scan are kept: a path of slashes
  only is returned whole when a suffix is given, and a last segment that is a proper end
  of the suffix is returned with its trailing slashes.
\<close>

definition path_basename :: "string \<Rightarrow> string \<Rightarrow> string" where
  "path_basename path suffix =
     (let part = last_part path in
      if suffix \<noteq> [] \<and> length suffix \<le> length path then
        (if suffix = path then []
         else if part = [] then path
         else if length suffix < length part \<and> drop (length part - length suffix) part = suffix
         then take (length part - length suffix) part
         else if length part < length suffix \<and> drop (length suffix - length part) suffix = part
         then part @ takeWhile (\<lambda>c. c = CHR ''/'') (rev path)
         else part)
      else part)"

subsection \<open>uniquePath\<close>

text \<open>
  The file system is the list of the paths that exist, each with what is there.
  \<open>candidate dir base i\<close> is the path the loop tries with counter \<open>i\<close>.
\<close>

datatype node = Dir | File "8 word list"

type_synonym filesystem = "(string \<times> node) list"

definition existsSync :: "filesystem \<Rightarrow> string \<Rightarrow> bool" where
  "existsSync fs p = (p \<in> fst ` set fs)"

definition candidate :: "string \<Rightarrow> string \<Rightarrow> nat \<Rightarrow> string" where
  "candidate dir base i =
     (let ext = path_extname base; name = path_basename base ext
      in path_join dir (name @ '' ('' @ show_nat i @ '')'' @ ext))"

text \<open>
  The loop ends because the candidates are pairwise different and only finitely many
  paths exist. The counter is printed in decimal, and decimal notation is injective.
\<close>

lemma digit_val_digit_char: "d < 10 \<Longrightarrow> digit_val (digit_char d) = Some d"
  by (simp add: digit_val_def digit_char_def Let_def)

lemma digits_in_snoc:
  "digits_in b acc (xs @ [c]) =
     (case digits_in b acc xs of None \<Rightarrow> None
      | Some a \<Rightarrow> (case digit_val c of None \<Rightarrow> None
                   | Some d \<Rightarrow> if d < b then Some (a * b + d) else None))"
  by (induction xs arbitrary: acc) (auto split: option.splits)

lemma digits_in_show_nat: "digits_in 10 0 (show_nat n) = Some n"
proof (induction n rule: show_nat.induct)
  case (1 n)
  show ?case
  proof (cases "n < 10")
    case True
    then show ?thesis
      by (subst show_nat.simps) (simp add: digit_val_digit_char)
  next
    case False
    with 1 have "digits_in 10 0 (show_nat (n div 10)) = Some (n div 10)" by simp
    with False show ?thesis
      by (subst show_nat.simps) (simp add: digits_in_snoc digit_val_digit_char)
  qed
qed

lemma show_nat_inj: "show_nat i = show_nat j \<Longrightarrow> i = j"
  by (metis digits_in_show_nat option.inject)

lemma digit_char_not_slash: "d < 10 \<Longrightarrow> digit_char d \<noteq> CHR ''/''"
proof
  assume d: "d < 10" and "digit_char d = CHR ''/''"
  then have "(of_char (digit_char d) :: nat) = of_char (CHR ''/'')" by simp
  with d show False by (simp add: digit_char_def)
qed

lemma show_nat_no_slash: "CHR ''/'' \<notin> set (show_nat n)"
proof (induction n rule: show_nat.induct)
  case (1 n)
  show ?case
  proof (cases "n < 10")
    case True
    then show ?thesis
      using digit_char_not_slash [of n] by (subst show_nat.simps) auto
  next
    case False
    with 1 have "CHR ''/'' \<notin> set (show_nat (n div 10))" by simp
    moreover have "digit_char (n mod 10) \<noteq> CHR ''/''" by (simp add: digit_char_not_slash)
    ultimately show ?thesis using False
      by (subst show_nat.simps) auto
  qed
qed

lemma split_slash_not_Nil: "split_slash s \<noteq> []"
  by (induction s) (auto split: list.splits)

lemma split_slash_append: "split_slash (a @ CHR ''/'' # b) = split_slash a @ split_slash b"
  by (induction a) (auto simp: split_slash_not_Nil split: list.splits)

lemma split_slash_plain: "CHR ''/'' \<notin> set s \<Longrightarrow> split_slash s = [s]"
  by (induction s) auto

lemma join_slash_snoc:
  "join_slash (st @ [s]) = (if st = [] then s else join_slash st @ CHR ''/'' # s)"
  by (induction st rule: join_slash.induct) auto

text \<open>A plain segment is a file name: no slash, not empty, not \<open>.\<close> or \<open>..\<close>.\<close>

definition plain :: "string \<Rightarrow> bool" where
  "plain seg = (CHR ''/'' \<notin> set seg \<and> seg \<noteq> [] \<and> seg \<noteq> ''.'' \<and> seg \<noteq> ''..'')"

definition join_prefix :: "string \<Rightarrow> string" where
  "join_prefix dir =
     (if dir = [] then []
      else
        let st = foldl (normalize_step (hd dir \<noteq> CHR ''/'')) [] (split_slash dir)
        in (if hd dir = CHR ''/'' then ''/'' else [])
             @ (if st = [] then [] else join_slash st @ ''/''))"

lemma path_join_plain:
  assumes "plain seg"
  shows "path_join dir seg = join_prefix dir @ seg"
proof (cases "dir = []")
  case True
  from assms have ne: "seg \<noteq> []" and ns: "CHR ''/'' \<notin> set seg"
    by (simp_all add: plain_def)
  have "hd seg \<noteq> CHR ''/''" using ne ns by (metis hd_in_set)
  moreover have "last seg \<noteq> CHR ''/''" using ne ns by (metis last_in_set)
  ultimately show ?thesis
    using True assms ne
    by (simp add: path_join_def path_normalize_def join_prefix_def Let_def
        split_slash_plain plain_def normalize_step_def)
next
  case False
  from assms have ne: "seg \<noteq> []" and ns: "CHR ''/'' \<notin> set seg"
    by (simp_all add: plain_def)
  have "last seg \<noteq> CHR ''/''" using ne ns by (metis last_in_set)
  with ns ne assms have seg: "last seg \<noteq> CHR ''/''" "seg \<noteq> []" "CHR ''/'' \<notin> set seg"
    "seg \<noteq> ''.''" "seg \<noteq> ''..''"
    by (auto simp: plain_def)
  have sp: "split_slash (dir @ CHR ''/'' # seg) = split_slash dir @ [seg]"
    using seg by (simp add: split_slash_append split_slash_plain)
  have hd: "hd (dir @ CHR ''/'' # seg) = hd dir" using False by simp
  have lst: "last (dir @ CHR ''/'' # seg) = last seg" using seg by simp
  show ?thesis
    using False seg
    by (simp add: path_join_def path_normalize_def Let_def sp hd lst normalize_step_def
        join_slash_snoc join_prefix_def)
qed

lemma last_part_no_slash: "CHR ''/'' \<notin> set (last_part path)"
  by (auto simp: last_part_def dest: set_takeWhileD)

lemma extname_no_slash: "CHR ''/'' \<notin> set (path_extname base)"
proof -
  have "set (takeWhile (\<lambda>c. c \<noteq> CHR ''.'') (rev (last_part base))) \<subseteq> set (last_part base)"
    by (auto dest: set_takeWhileD)
  then show ?thesis
    using last_part_no_slash [of base] by (auto simp: path_extname_def Let_def)
qed

lemma extname_suffix:
  assumes "path_extname base \<noteq> []"
  shows "\<exists>stem. stem \<noteq> [] \<and> last_part base = stem @ path_extname base"
proof -
  let ?part = "last_part base"
  let ?tw = "takeWhile (\<lambda>c. c \<noteq> CHR ''.'') (rev ?part)"
  let ?dw = "dropWhile (\<lambda>c. c \<noteq> CHR ''.'') (rev ?part)"
  from assms have dot: "CHR ''.'' \<in> set ?part"
    and ext: "path_extname base = CHR ''.'' # rev ?tw"
    and len: "length (CHR ''.'' # rev ?tw) \<noteq> length ?part"
    by (auto simp: path_extname_def Let_def split: if_splits)
  from dot have "?dw \<noteq> []" by (simp add: dropWhile_eq_Nil_conv)
  then have hd: "hd ?dw = CHR ''.''"
    using hd_dropWhile [of "\<lambda>c. c \<noteq> CHR ''.''" "rev ?part"] by simp
  with \<open>?dw \<noteq> []\<close> have dw: "?dw = CHR ''.'' # tl ?dw" by (cases ?dw) auto
  have "rev ?part = ?tw @ ?dw" by simp
  then have "rev ?part = ?tw @ CHR ''.'' # tl ?dw" using dw by simp
  then have "rev (rev ?part) = rev (?tw @ CHR ''.'' # tl ?dw)" by (rule arg_cong)
  then have part: "?part = rev (tl ?dw) @ CHR ''.'' # rev ?tw" by simp
  with len have "rev (tl ?dw) \<noteq> []"
    by (metis append_Nil)
  with part ext show ?thesis by metis
qed

lemma basename_no_slash: "CHR ''/'' \<notin> set (path_basename base (path_extname base))"
proof (cases "path_extname base = []")
  case True
  then show ?thesis by (simp add: path_basename_def last_part_no_slash)
next
  case False
  from extname_suffix [OF False] obtain stem where
    stem: "stem \<noteq> []" "last_part base = stem @ path_extname base" by blast
  then have len: "length (path_extname base) \<le> length (last_part base)"
    and part: "last_part base \<noteq> []" by simp_all
  have "set (take n (last_part base)) \<subseteq> set (last_part base)" for n
    by (rule set_take_subset)
  then have "CHR ''/'' \<notin> set (take n (last_part base))" for n
    using last_part_no_slash [of base] by blast
  then show ?thesis
    using len part last_part_no_slash [of base]
    by (auto simp: path_basename_def Let_def)
qed

lemma candidate_plain:
  "plain (path_basename base (path_extname base) @ '' ('' @ show_nat i @ '')''
            @ path_extname base)"
  using basename_no_slash [of base] extname_no_slash [of base] show_nat_no_slash [of i]
  by (auto simp: plain_def append_eq_Cons_conv Cons_eq_append_conv)

lemma candidate_eq:
  "candidate dir base i =
     join_prefix dir @ path_basename base (path_extname base) @ '' ('' @ show_nat i @ '')''
       @ path_extname base"
  using path_join_plain [OF candidate_plain, of dir base i]
  by (simp add: candidate_def Let_def)

lemma candidate_inj: "candidate dir base i = candidate dir base j \<Longrightarrow> i = j"
  by (simp add: candidate_eq show_nat_inj)

lemma finite_taken: "finite {j. i \<le> j \<and> existsSync fs (candidate dir base j)}"
proof -
  have "inj (candidate dir base)" by (rule injI) (rule candidate_inj)
  then have "finite (candidate dir base -` (fst ` set fs))"
    by (intro finite_vimageI) simp_all
  moreover have "{j. i \<le> j \<and> existsSync fs (candidate dir base j)}
      \<subseteq> candidate dir base -` (fst ` set fs)"
    by (auto simp: existsSync_def)
  ultimately show ?thesis by (rule rev_finite_subset)
qed

text \<open>How many candidates from counter \<open>i\<close> on are taken: the measure of the loop.\<close>

definition taken_from :: "filesystem \<Rightarrow> string \<Rightarrow> string \<Rightarrow> nat \<Rightarrow> nat" where
  "taken_from fs dir base i = card {j. i \<le> j \<and> existsSync fs (candidate dir base j)}"

lemma taken_from_Suc:
  "taken_from fs dir base (Suc i) + (if existsSync fs (candidate dir base i) then 1 else 0)
     = taken_from fs dir base i"
proof -
  let ?A = "\<lambda>i. {j. i \<le> j \<and> existsSync fs (candidate dir base j)}"
  show ?thesis
  proof (cases "existsSync fs (candidate dir base i)")
    case True
    then have "?A i = insert i (?A (Suc i))" by (auto simp: le_Suc_eq Suc_le_eq less_le)
    moreover have "i \<notin> ?A (Suc i)" by simp
    ultimately show ?thesis
      using True finite_taken [of "Suc i" fs dir base] by (simp add: taken_from_def)
  next
    case False
    then have "?A i = ?A (Suc i)"
      by (auto simp: Suc_le_eq less_le)
    with False show ?thesis by (simp add: taken_from_def)
  qed
qed

function uniquePath_loop :: "filesystem \<Rightarrow> string \<Rightarrow> string \<Rightarrow> nat \<Rightarrow> string \<Rightarrow> string" where
  "uniquePath_loop fs dir base i p =
     (if existsSync fs p then uniquePath_loop fs dir base (i + 1) (candidate dir base i) else p)"
  by pat_completeness auto
termination
proof (relation "measure (\<lambda>(fs, dir, base, i, p).
    (if existsSync fs p then 1 else 0) + taken_from fs dir base i)")
  show "wf (measure (\<lambda>(fs, dir, base, i, p).
    (if existsSync fs p then 1 else 0) + taken_from fs dir base i))" by simp
next
  fix fs :: filesystem and dir base :: string and i :: nat and p :: string
  assume "existsSync fs p"
  then show "((fs, dir, base, i + 1, candidate dir base i), fs, dir, base, i, p)
    \<in> measure (\<lambda>(fs, dir, base, i, p).
         (if existsSync fs p then 1 else 0) + taken_from fs dir base i)"
    using taken_from_Suc [of fs dir base i] by simp
qed

declare uniquePath_loop.simps [simp del]

definition uniquePath :: "filesystem \<Rightarrow> string \<Rightarrow> string \<Rightarrow> string" where
  "uniquePath fs dir base = uniquePath_loop fs dir base 1 (path_join dir base)"

text \<open>The paths tried, in order: the base name itself, then counters 1, 2, ...\<close>

definition nth_path :: "string \<Rightarrow> string \<Rightarrow> nat \<Rightarrow> string" where
  "nth_path dir base n = (if n = 0 then path_join dir base else candidate dir base n)"

lemma uniquePath_loop_free: "\<not> existsSync fs (uniquePath_loop fs dir base i p)"
  by (induction fs dir base i p rule: uniquePath_loop.induct)
     (subst uniquePath_loop.simps, simp)

lemma uniquePath_free: "\<not> existsSync fs (uniquePath fs dir base)"
  by (simp add: uniquePath_def uniquePath_loop_free)

lemma uniquePath_loop_first_free:
  assumes "existsSync fs p" "\<forall>j. i \<le> j \<and> j < k \<longrightarrow> existsSync fs (candidate dir base j)"
    "\<not> existsSync fs (candidate dir base k)" "i \<le> k"
  shows "uniquePath_loop fs dir base i p = candidate dir base k"
  using assms
proof (induction "k - i" arbitrary: i p)
  case 0
  then have "i = k" by simp
  with 0 show ?case
    by (subst uniquePath_loop.simps, subst uniquePath_loop.simps) simp
next
  case (Suc n)
  then have lt: "i < k" by simp
  with Suc.prems have ex: "existsSync fs (candidate dir base i)" by simp
  have "uniquePath_loop fs dir base (i + 1) (candidate dir base i) = candidate dir base k"
  proof (rule Suc.hyps(1))
    show "n = k - (i + 1)" using Suc.hyps(2) by simp
    show "existsSync fs (candidate dir base i)" by (rule ex)
    show "\<forall>j. i + 1 \<le> j \<and> j < k \<longrightarrow> existsSync fs (candidate dir base j)"
      using Suc.prems(2) by simp
    show "\<not> existsSync fs (candidate dir base k)" by (rule Suc.prems(3))
    show "i + 1 \<le> k" using lt by simp
  qed
  with Suc.prems(1) show ?case by (subst uniquePath_loop.simps) simp
qed

lemma uniquePath_first_free:
  assumes "\<forall>j < k. existsSync fs (nth_path dir base j)" "\<not> existsSync fs (nth_path dir base k)"
  shows "uniquePath fs dir base = nth_path dir base k"
proof (cases "k = 0")
  case True
  with assms(2) show ?thesis
    by (simp add: uniquePath_def nth_path_def uniquePath_loop.simps)
next
  case False
  from assms(1) False have p: "existsSync fs (path_join dir base)"
    by (auto simp: nth_path_def split: if_splits)
  have "uniquePath_loop fs dir base 1 (path_join dir base) = candidate dir base k"
  proof (rule uniquePath_loop_first_free [OF p])
    show "\<forall>j. 1 \<le> j \<and> j < k \<longrightarrow> existsSync fs (candidate dir base j)"
      using assms(1) by (auto simp: nth_path_def split: if_splits)
    show "\<not> existsSync fs (candidate dir base k)" using assms(2) False by (simp add: nth_path_def)
    show "1 \<le> k" using False by simp
  qed
  with False show ?thesis by (simp add: uniquePath_def nth_path_def)
qed

lemma last_part_plain: "CHR ''/'' \<notin> set base \<Longrightarrow> last_part base = base"
proof -
  assume a: "CHR ''/'' \<notin> set base"
  then have dw: "dropWhile (\<lambda>c. c = CHR ''/'') (rev base) = rev base"
    by (cases "rev base") (auto simp: rev_eq_Cons_iff)
  from a have tw: "takeWhile (\<lambda>c. c \<noteq> CHR ''/'') (rev base) = rev base"
    by (auto simp: takeWhile_eq_all_conv)
  show ?thesis unfolding last_part_def dw tw by simp
qed

lemma basename_strip:
  "CHR ''/'' \<notin> set (stem @ ext) \<Longrightarrow> stem \<noteq> [] \<Longrightarrow> ext \<noteq> [] \<Longrightarrow>
   path_basename (stem @ ext) ext = stem"
  by (simp add: path_basename_def last_part_plain Let_def)

lemma basename_extname:
  assumes "CHR ''/'' \<notin> set base"
  shows "path_basename base (path_extname base) @ path_extname base = base"
proof (cases "path_extname base = []")
  case True
  with assms show ?thesis by (simp add: path_basename_def last_part_plain)
next
  case False
  from extname_suffix [OF False] obtain stem where
    stem: "stem \<noteq> []" "last_part base = stem @ path_extname base" by blast
  with assms have b: "base = stem @ path_extname base" by (simp add: last_part_plain)
  have "path_basename (stem @ path_extname base) (path_extname base) = stem"
    using stem(1) False assms b by (intro basename_strip) simp_all
  with b show ?thesis by metis
qed

text \<open>
  \<open>uniquePath\<close> returns the first of the paths \<open>base\<close>, \<open>name (1)ext\<close>,
  \<open>name (2)ext\<close>, ... (joined to the directory) that names nothing existing, and the
  counter text stands right before the extension; for a base name without a slash, name
  and extension together are the base name. So when a first download gets the base name
  itself and its file is there when the second download with the same base name resolves
  its path, the second gets \<open>name (1)ext\<close> provided nothing exists there, and the two
  paths differ.
\<close>

theorem uniquePath_first_free_candidate:
  "\<not> existsSync fs (uniquePath fs dir base)
   \<and> ((\<forall>j < k. existsSync fs (nth_path dir base j)) \<and> \<not> existsSync fs (nth_path dir base k)
        \<longrightarrow> uniquePath fs dir base = nth_path dir base k)
   \<and> candidate dir base n =
        join_prefix dir @ path_basename base (path_extname base) @ '' ('' @ show_nat n @ '')''
          @ path_extname base
   \<and> (CHR ''/'' \<notin> set base \<longrightarrow>
        path_basename base (path_extname base) @ path_extname base = base)
   \<and> (\<not> existsSync fs (path_join dir base)
        \<and> \<not> existsSync ((path_join dir base, File bytes) # fs) (candidate dir base 1)
        \<longrightarrow> uniquePath fs dir base = path_join dir base
          \<and> uniquePath ((path_join dir base, File bytes) # fs) dir base = candidate dir base 1
          \<and> candidate dir base 1 \<noteq> path_join dir base)"
proof -
  have two: "uniquePath fs dir base = path_join dir base
      \<and> uniquePath ((path_join dir base, File bytes) # fs) dir base = candidate dir base 1
      \<and> candidate dir base 1 \<noteq> path_join dir base"
    if a: "\<not> existsSync fs (path_join dir base)"
      and b: "\<not> existsSync ((path_join dir base, File bytes) # fs) (candidate dir base 1)"
  proof -
    have 1: "uniquePath fs dir base = path_join dir base"
      using uniquePath_first_free [of 0 fs dir base] a by (simp add: nth_path_def)
    have "uniquePath ((path_join dir base, File bytes) # fs) dir base = nth_path dir base 1"
    proof (rule uniquePath_first_free)
      show "\<forall>j<1. existsSync ((path_join dir base, File bytes) # fs) (nth_path dir base j)"
        by (simp add: nth_path_def existsSync_def)
      show "\<not> existsSync ((path_join dir base, File bytes) # fs) (nth_path dir base 1)"
        using b by (simp add: nth_path_def)
    qed
    then have 2: "uniquePath ((path_join dir base, File bytes) # fs) dir base = candidate dir base 1"
      by (simp add: nth_path_def)
    from b have 3: "candidate dir base 1 \<noteq> path_join dir base"
      by (auto simp: existsSync_def)
    from 1 2 3 show ?thesis by simp
  qed
  show ?thesis
    using uniquePath_free [of fs dir base] uniquePath_first_free [of k fs dir base]
      candidate_eq [of dir base n] basename_extname [of base] two
    by blast
qed

lemma join_a_jpg: "path_join ''downloads'' ''a.jpg'' = ''downloads/a.jpg''"
  by code_simp

lemma candidate_a_jpg: "candidate ''downloads'' ''a.jpg'' (Suc 0) = ''downloads/a (1).jpg''"
  by code_simp

theorem uniquePath_first_free_witness:
  "\<not> existsSync [(''downloads'', Dir)] (path_join ''downloads'' ''a.jpg'')
   \<and> \<not> existsSync [(''downloads/a.jpg'', File [0xff, 0xd8]), (''downloads'', Dir)]
          (candidate ''downloads'' ''a.jpg'' 1)
   \<and> CHR ''/'' \<notin> set ''a.jpg''
   \<and> uniquePath [(''downloads'', Dir)] ''downloads'' ''a.jpg'' = ''downloads/a.jpg''
   \<and> uniquePath [(''downloads/a.jpg'', File [0xff, 0xd8]), (''downloads'', Dir)] ''downloads'' ''a.jpg''
        = ''downloads/a (1).jpg''
   \<and> existsSync [(''downloads/a.jpg'', File [0xff, 0xd8]), (''downloads'', Dir)]
        (nth_path ''downloads'' ''a.jpg'' 0)
   \<and> \<not> existsSync [(''downloads/a.jpg'', File [0xff, 0xd8]), (''downloads'', Dir)]
        (nth_path ''downloads'' ''a.jpg'' 1)"
proof -
  have a: "\<not> existsSync [(''downloads'', Dir)] (path_join ''downloads'' ''a.jpg'')"
    by (simp add: join_a_jpg existsSync_def)
  have b: "\<not> existsSync ((path_join ''downloads'' ''a.jpg'', File [0xff, 0xd8]) # [(''downloads'', Dir)])
          (candidate ''downloads'' ''a.jpg'' 1)"
    by (simp add: join_a_jpg candidate_a_jpg existsSync_def)
  from uniquePath_first_free_candidate
    [of "[(''downloads'', Dir)]" "''downloads''" "''a.jpg''" 0 1 "[0xff, 0xd8]"] a b
  have "uniquePath [(''downloads'', Dir)] ''downloads'' ''a.jpg'' = path_join ''downloads'' ''a.jpg''
    \<and> uniquePath ((path_join ''downloads'' ''a.jpg'', File [0xff, 0xd8]) # [(''downloads'', Dir)])
        ''downloads'' ''a.jpg'' = candidate ''downloads'' ''a.jpg'' 1"
    by blast
  then show ?thesis
    by (simp add: join_a_jpg candidate_a_jpg existsSync_def nth_path_def)
qed

subsection \<open>Downloads in flight together\<close>

text \<open>
  \<open>main\<close> keeps up to \<open>concurrency\<close> calls of \<open>downloadOne\<close> in flight (4 by default).
  A call runs alone between two of its \<open>await\<close>s, so the calls interleave at the
  \<open>await\<close>s. Two steps of a call touch the files: \<open>uniquePath\<close>, which tests with
  \<open>existsSync\<close> the files that exist at that moment, and the opening of the write
  stream. \<open>createWriteStream\<close> only starts the opening; the file is created later, off
  the main thread, with flag \<open>w\<close> (an existing file is emptied). Another call whose
  response arrives in between runs its \<open>uniquePath\<close> before the file is there.

  \<open>ResolvePath i\<close> and \<open>OpenFile i\<close> are these two steps of the \<open>i\<close>-th download, whose
  file name is \<open>filename i\<close>; a schedule lists the steps in the order they happen, and
  \<open>pool_run\<close> gives the files and the path of each download after the schedule.
\<close>

datatype pool_step = ResolvePath nat | OpenFile nat

record pool =
  pool_files :: filesystem
  pool_outPath :: "nat \<Rightarrow> string option"

fun pool_do :: "string \<Rightarrow> (nat \<Rightarrow> string) \<Rightarrow> pool \<Rightarrow> pool_step \<Rightarrow> pool" where
  "pool_do outDir filename s (ResolvePath i) =
     s\<lparr>pool_outPath := (pool_outPath s)(i \<mapsto> uniquePath (pool_files s) outDir (filename i))\<rparr>"
| "pool_do outDir filename s (OpenFile i) =
     (case pool_outPath s i of
        None \<Rightarrow> s
      | Some p \<Rightarrow> s\<lparr>pool_files := (p, File []) # pool_files s\<rparr>)"

definition pool_run ::
  "string \<Rightarrow> (nat \<Rightarrow> string) \<Rightarrow> pool_step list \<Rightarrow> filesystem \<Rightarrow> pool" where
  "pool_run outDir filename schedule fs =
     foldl (pool_do outDir filename) \<lparr>pool_files = fs, pool_outPath = Map.empty\<rparr> schedule"

lemma unique_a_jpg:
  "uniquePath [(''downloads'', Dir)] ''downloads'' ''a.jpg'' = ''downloads/a.jpg''"
  by code_simp

lemma unique_a_jpg_taken:
  "uniquePath [(''downloads/a.jpg'', File []), (''downloads'', Dir)] ''downloads'' ''a.jpg''
     = ''downloads/a (1).jpg''"
  by code_simp

text \<open>
  C7 fails on the code. Two downloads with the file name \<open>a.jpg\<close> into an empty
  \<open>downloads\<close> directory, the second resolving its path before the file of the first
  is created: both get \<open>downloads/a.jpg\<close>, and both write there. When the file of the
  first is created before the second resolves its path, the second gets
  \<open>downloads/a (1).jpg\<close>, as the claim says.
\<close>

theorem concurrent_downloads_share_path:
  "pool_outPath (pool_run ''downloads'' (\<lambda>i. ''a.jpg'')
       [ResolvePath 1, ResolvePath 2, OpenFile 1, OpenFile 2] [(''downloads'', Dir)]) 1
     = Some ''downloads/a.jpg''
   \<and> pool_outPath (pool_run ''downloads'' (\<lambda>i. ''a.jpg'')
       [ResolvePath 1, ResolvePath 2, OpenFile 1, OpenFile 2] [(''downloads'', Dir)]) 2
     = Some ''downloads/a.jpg''
   \<and> pool_outPath (pool_run ''downloads'' (\<lambda>i. ''a.jpg'')
       [ResolvePath 1, OpenFile 1, ResolvePath 2, OpenFile 2] [(''downloads'', Dir)]) 1
     = Some ''downloads/a.jpg''
   \<and> pool_outPath (pool_run ''downloads'' (\<lambda>i. ''a.jpg'')
       [ResolvePath 1, OpenFile 1, ResolvePath 2, OpenFile 2] [(''downloads'', Dir)]) 2
     = Some ''downloads/a (1).jpg''"
  by (simp add: pool_run_def unique_a_jpg unique_a_jpg_taken)

subsection \<open>downloadOne\<close>

text \<open>
  The network is an input: \<open>fetch url headers n\<close> is what the \<open>n\<close>-th call of
  \<open>fetch(url, {headers, redirect: 'follow'})\<close> of this download does, either rejecting
  with an error or resolving to a response. An error is its name and message;
  \<open>String(err)\<close> is \<open>name: message\<close>, and \<open>String(null)\<close> is \<open>null\<close>.

  What piping the body of a response into the output file does is an input as well. The
  body ends, and the file holds its bytes (\<open>BodyEnds\<close>). Or the pipeline fails once the
  file is open, because the body breaks off or a write fails: the file is there and holds
  the bytes written until then, which may be none of the bytes received (\<open>BodyFails\<close>).
  Or the write stream cannot open the file (the name is too long, the directory cannot
  be written): the pipeline fails with that error and there is no file (\<open>OpenFails\<close>).
\<close>

datatype js_error = JsError string string

definition String_err :: "js_error option \<Rightarrow> string" where
  "String_err e =
     (case e of
        None \<Rightarrow> ''null''
      | Some (JsError name msg) \<Rightarrow>
          if msg = [] then name else if name = [] then msg else name @ '': '' @ msg)"

datatype body = BodyEnds "8 word list" | BodyFails "8 word list" js_error | OpenFails js_error

record response =
  res_ok :: bool
  res_status :: nat
  res_header :: "string \<Rightarrow> string option"
  res_body :: body

datatype fetch_result = Rejects js_error | Resolves response

type_synonym dl_fetch = "string \<Rightarrow> dl_headers \<Rightarrow> nat \<Rightarrow> fetch_result"

text \<open>What the download does besides writing files, in order.\<close>

datatype effect = Fetch string | Sleep nat

text \<open>\<open>{url, path, ok: true}\<close> and \<open>{url, error, ok: false}\<close>.\<close>

datatype outcome = Downloaded string string | Failed string string

definition sanitizeName :: "string \<Rightarrow> string" where
  "sanitizeName name = map (\<lambda>c. if safe_char c then c else CHR ''_'') name"

definition pickFilenameFromUrl :: "platform \<Rightarrow> string \<Rightarrow> string" where
  "pickFilenameFromUrl pf u =
     (case url_pathname pf u of
        None \<Rightarrow> ''file''
      | Some pathname \<Rightarrow>
          sanitizeName (the (js_or (Some (path_basename pathname [])) (Some ''file''))))"

text \<open>The downloader's \<open>filenameFromDisposition\<close> does not catch \<open>URIError\<close>.\<close>

definition dl_filenameFromDisposition ::
  "platform \<Rightarrow> string option \<Rightarrow> js_error + string option" where
  "dl_filenameFromDisposition pf disposition =
     (if \<not> truthy_str disposition then Inr None
      else
        let v = (case filename_regex pf (the disposition) of
                   None \<Rightarrow> None
                 | Some (g1, g2) \<Rightarrow> js_or (js_or g1 g2) None)
        in if truthy_str v
           then (case decodeURIComponent pf (the v) of
                   None \<Rightarrow> Inl (JsError ''URIError'' ''URI malformed'')
                 | Some d \<Rightarrow> Inr (Some (sanitizeName d)))
           else Inr None)"

text \<open>
  The \<open>try\<close> block up to the file name: the error thrown, or the file name and the body
  still to be written.
\<close>

definition attempt_plan :: "platform \<Rightarrow> fetch_result \<Rightarrow> string \<Rightarrow> js_error + string \<times> body" where
  "attempt_plan pf r url =
     (case r of
        Rejects e \<Rightarrow> Inl e
      | Resolves res \<Rightarrow>
          if \<not> res_ok res then Inl (JsError ''Error'' (''HTTP '' @ show_nat (res_status res)))
          else
            let ctype = the (js_or (res_header res ''content-type'') (Some []))
            in if \<not> startsWith (toLowerCase ctype) ''image/''
               then Inl (JsError ''Error'' (''Content-Type not image/* ('' @ ctype @ '')''))
               else (case dl_filenameFromDisposition pf (res_header res ''content-disposition'') of
                       Inl e \<Rightarrow> Inl e
                     | Inr fromDisposition \<Rightarrow>
                         Inr (the (js_or fromDisposition (Some (pickFilenameFromUrl pf url))),
                              res_body res)))"

text \<open>
  The whole \<open>try\<close> block: after the file name, \<open>uniquePath\<close>, then
  \<open>createWriteStream(outPath)\<close>, which opens the file, and the pipeline, which writes
  there the bytes that arrive. Nothing removes the file when the pipeline fails.
\<close>

definition attempt_once ::
  "platform \<Rightarrow> fetch_result \<Rightarrow> string \<Rightarrow> string \<Rightarrow> filesystem
     \<Rightarrow> (js_error + string) \<times> filesystem" where
  "attempt_once pf r url outDir fs =
     (case attempt_plan pf r url of
        Inl e \<Rightarrow> (Inl e, fs)
      | Inr (filename, b) \<Rightarrow>
          let outPath = uniquePath fs outDir filename in
          (case b of
             BodyEnds bytes \<Rightarrow> (Inr outPath, (outPath, File bytes) # fs)
           | BodyFails written e \<Rightarrow> (Inl e, (outPath, File written) # fs)
           | OpenFails e \<Rightarrow> (Inl e, fs)))"

text \<open>
  The loop \<open>while (attempt++ <= retries)\<close>; \<open>attempt\<close> is the counter before the
  increment, so the attempt being made is number \<open>attempt + 1\<close>. \<open>retries\<close> is a finite
  integer.
\<close>

function downloadOne_loop ::
  "platform \<Rightarrow> dl_fetch \<Rightarrow> string \<Rightarrow> dl_headers \<Rightarrow> string \<Rightarrow> int \<Rightarrow> nat \<Rightarrow> js_error option
     \<Rightarrow> filesystem \<Rightarrow> effect list \<Rightarrow> outcome \<times> filesystem \<times> effect list" where
  "downloadOne_loop pf fetch url headers outDir retries attempt lastErr fs tr =
     (if int attempt \<le> retries then
        (case attempt_once pf (fetch url headers (attempt + 1)) url outDir fs of
           (Inr outPath, fs') \<Rightarrow> (Downloaded url outPath, fs', tr @ [Fetch url])
         | (Inl err, fs') \<Rightarrow>
             downloadOne_loop pf fetch url headers outDir retries (attempt + 1) (Some err) fs'
               (tr @ [Fetch url]
                  @ (if int (attempt + 1) \<le> retries then [Sleep (250 * (attempt + 1))] else [])))
      else (Failed url (String_err lastErr), fs, tr))"
  by pat_completeness auto
termination
  by (relation "measure (\<lambda>(pf, fetch, url, headers, outDir, retries, attempt, lastErr, fs, tr).
        nat (retries + 1 - int attempt))") auto

declare downloadOne_loop.simps [simp del]

definition downloadOne ::
  "platform \<Rightarrow> dl_fetch \<Rightarrow> filesystem \<Rightarrow> string \<Rightarrow> dl_headers \<Rightarrow> string \<Rightarrow> int
     \<Rightarrow> outcome \<times> filesystem \<times> effect list" where
  "downloadOne pf fetch fs url headers outDir retries =
     downloadOne_loop pf fetch url headers outDir retries 0 None fs []"

text \<open>The error an attempt ends with, if it fails: it does not depend on the file system.\<close>

definition attempt_error :: "platform \<Rightarrow> fetch_result \<Rightarrow> string \<Rightarrow> js_error option" where
  "attempt_error pf r url =
     (case attempt_plan pf r url of
        Inl e \<Rightarrow> Some e
      | Inr (filename, BodyFails written e) \<Rightarrow> Some e
      | Inr (filename, OpenFails e) \<Rightarrow> Some e
      | Inr (filename, BodyEnds bytes) \<Rightarrow> None)"

lemma attempt_once_error:
  "attempt_error pf r url = Some e \<Longrightarrow> \<exists>fs'. attempt_once pf r url outDir fs = (Inl e, fs')"
  by (auto simp: attempt_error_def attempt_once_def Let_def
      split: sum.splits body.splits prod.splits)

lemma loop_fail_last:
  assumes "int attempt = retries"
    and "attempt_error pf (fetch url headers (attempt + 1)) url = Some e"
  shows "\<exists>fs'. downloadOne_loop pf fetch url headers outDir retries attempt lastErr fs tr
     = (Failed url (String_err (Some e)), fs', tr @ [Fetch url])"
proof -
  from attempt_once_error [OF assms(2)] obtain fs' where
    a: "attempt_once pf (fetch url headers (attempt + 1)) url outDir fs = (Inl e, fs')" by blast
  have "downloadOne_loop pf fetch url headers outDir retries (attempt + 1) (Some e) fs'
          (tr @ [Fetch url])
     = (Failed url (String_err (Some e)), fs', tr @ [Fetch url])"
    using assms(1) by (subst downloadOne_loop.simps) simp
  then show ?thesis
    using assms(1) a by (subst downloadOne_loop.simps) simp
qed

lemma loop_fail_step:
  assumes "int attempt < retries"
    and "attempt_error pf (fetch url headers (attempt + 1)) url = Some e"
  shows "\<exists>fs'. downloadOne_loop pf fetch url headers outDir retries attempt lastErr fs tr
     = downloadOne_loop pf fetch url headers outDir retries (attempt + 1) (Some e) fs'
         (tr @ [Fetch url, Sleep (250 * (attempt + 1))])"
proof -
  from attempt_once_error [OF assms(2)] obtain fs' where
    a: "attempt_once pf (fetch url headers (attempt + 1)) url outDir fs = (Inl e, fs')" by blast
  show ?thesis
    using assms(1) a by (subst downloadOne_loop.simps) auto
qed

text \<open>
  C6. With \<open>retries = 2\<close> and three failing attempts, \<open>downloadOne\<close> fetches exactly three
  times, sleeps 250 ms after the first failure and 500 ms after the second, does not sleep
  after the third, and returns a failure whose error text is \<open>String\<close> of the third
  attempt's error.
\<close>

theorem three_attempts_linear_backoff:
  assumes "attempt_error pf (fetch url headers 1) url = Some e1"
    and "attempt_error pf (fetch url headers 2) url = Some e2"
    and "attempt_error pf (fetch url headers 3) url = Some e3"
  shows "fst (downloadOne pf fetch fs url headers outDir 2) = Failed url (String_err (Some e3))
    \<and> snd (snd (downloadOne pf fetch fs url headers outDir 2))
        = [Fetch url, Sleep 250, Fetch url, Sleep 500, Fetch url]"
proof -
  from loop_fail_step [of 0 2 pf fetch url headers e1 outDir None fs "[]"] assms(1)
  obtain fs1 where s1: "downloadOne_loop pf fetch url headers outDir 2 0 None fs []
     = downloadOne_loop pf fetch url headers outDir 2 1 (Some e1) fs1 [Fetch url, Sleep 250]"
    by auto
  from loop_fail_step [of 1 2 pf fetch url headers e2 outDir "Some e1" fs1 "[Fetch url, Sleep 250]"]
    assms(2)
  obtain fs2 where s2:
    "downloadOne_loop pf fetch url headers outDir 2 1 (Some e1) fs1 [Fetch url, Sleep 250]
     = downloadOne_loop pf fetch url headers outDir 2 2 (Some e2) fs2
         [Fetch url, Sleep 250, Fetch url, Sleep 500]"
    by (auto simp: numeral_2_eq_2)
  from loop_fail_last [of 2 2 pf fetch url headers e3 outDir "Some e2" fs2
      "[Fetch url, Sleep 250, Fetch url, Sleep 500]"] assms(3)
  obtain fs3 where s3: "downloadOne_loop pf fetch url headers outDir 2 2 (Some e2) fs2
         [Fetch url, Sleep 250, Fetch url, Sleep 500]
     = (Failed url (String_err (Some e3)), fs3,
        [Fetch url, Sleep 250, Fetch url, Sleep 500, Fetch url])"
    by (auto simp: numeral_3_eq_3 numeral_2_eq_2)
  show ?thesis
    unfolding downloadOne_def using s1 s2 s3 by simp
qed

text \<open>
  An attempt fails before anything is written when the \<open>try\<close> block throws before the
  pipeline, or the file cannot be opened.
\<close>

definition fails_before_write :: "platform \<Rightarrow> fetch_result \<Rightarrow> string \<Rightarrow> bool" where
  "fails_before_write pf r url =
     (case attempt_plan pf r url of
        Inl e \<Rightarrow> True
      | Inr (filename, OpenFails e) \<Rightarrow> True
      | Inr (filename, BodyFails written e) \<Rightarrow> False
      | Inr (filename, BodyEnds bytes) \<Rightarrow> False)"

text \<open>
  Concrete inputs: an origin that answers 503 every time, one whose body breaks off
  before a byte is in the file, and one that does the latter once and the former after.
\<close>

definition unavailable :: response where
  "unavailable = \<lparr>res_ok = False, res_status = 503, res_header = Map.empty,
     res_body = BodyEnds []\<rparr>"

definition fetch_unavailable :: dl_fetch where
  "fetch_unavailable = (\<lambda>url headers n. Resolves unavailable)"

definition truncated_png :: response where
  "truncated_png = \<lparr>res_ok = True, res_status = 200,
     res_header = [''content-type'' \<mapsto> ''image/png''],
     res_body = BodyFails [] (JsError ''Error'' ''aborted'')\<rparr>"

definition fetch_truncated :: dl_fetch where
  "fetch_truncated = (\<lambda>url headers n. Resolves truncated_png)"

definition fetch_truncated_then_unavailable :: dl_fetch where
  "fetch_truncated_then_unavailable =
     (\<lambda>url headers n. if n = 1 then Resolves truncated_png else Resolves unavailable)"

lemma show_nat_503: "show_nat 503 = ''503''"
  by code_simp

lemma plan_unavailable:
  "attempt_plan pf (fetch_unavailable url headers n) url = Inl (JsError ''Error'' ''HTTP 503'')"
  by (simp add: attempt_plan_def fetch_unavailable_def unavailable_def show_nat_503)

theorem three_attempts_witness:
  "attempt_error fixture_platform (fetch_unavailable ''http://cdn/a.png'' Map.empty 1)
      ''http://cdn/a.png'' = Some (JsError ''Error'' ''HTTP 503'')
   \<and> attempt_error fixture_platform (fetch_unavailable ''http://cdn/a.png'' Map.empty 2)
      ''http://cdn/a.png'' = Some (JsError ''Error'' ''HTTP 503'')
   \<and> attempt_error fixture_platform (fetch_unavailable ''http://cdn/a.png'' Map.empty 3)
      ''http://cdn/a.png'' = Some (JsError ''Error'' ''HTTP 503'')
   \<and> fst (downloadOne fixture_platform fetch_unavailable [(''downloads'', Dir)]
            ''http://cdn/a.png'' Map.empty ''downloads'' 2)
       = Failed ''http://cdn/a.png'' ''Error: HTTP 503''
   \<and> snd (snd (downloadOne fixture_platform fetch_unavailable [(''downloads'', Dir)]
                 ''http://cdn/a.png'' Map.empty ''downloads'' 2))
       = [Fetch ''http://cdn/a.png'', Sleep 250, Fetch ''http://cdn/a.png'', Sleep 500,
          Fetch ''http://cdn/a.png'']"
proof -
  have e: "attempt_error fixture_platform (fetch_unavailable ''http://cdn/a.png'' Map.empty n)
      ''http://cdn/a.png'' = Some (JsError ''Error'' ''HTTP 503'')" for n
    by (simp add: attempt_error_def plan_unavailable)
  have "fst (downloadOne fixture_platform fetch_unavailable [(''downloads'', Dir)]
            ''http://cdn/a.png'' Map.empty ''downloads'' 2)
       = Failed ''http://cdn/a.png'' (String_err (Some (JsError ''Error'' ''HTTP 503'')))
   \<and> snd (snd (downloadOne fixture_platform fetch_unavailable [(''downloads'', Dir)]
                 ''http://cdn/a.png'' Map.empty ''downloads'' 2))
       = [Fetch ''http://cdn/a.png'', Sleep 250, Fetch ''http://cdn/a.png'', Sleep 500,
          Fetch ''http://cdn/a.png'']"
    by (rule three_attempts_linear_backoff [where fetch = fetch_unavailable]) (rule e)+
  then show ?thesis using e by (simp add: String_err_def)
qed

subsection \<open>Files left by a failed download\<close>

lemma stream_failure_leaves_file:
  "attempt_plan pf r url = Inr (filename, BodyFails written e) \<Longrightarrow>
   attempt_once pf r url outDir fs = (Inl e, (uniquePath fs outDir filename, File written) # fs)"
  by (simp add: attempt_once_def Let_def)

lemma before_write_leaves_nothing:
  "fails_before_write pf r url \<Longrightarrow> \<exists>e. attempt_once pf r url outDir fs = (Inl e, fs)"
  by (auto simp: fails_before_write_def attempt_once_def Let_def
      split: sum.splits prod.splits body.splits)

lemma existsSync_map_of: "existsSync fs p = (map_of fs p \<noteq> None)"
  by (simp add: existsSync_def map_of_eq_None_iff)

lemma attempt_once_preserves:
  assumes "map_of fs p = Some v"
  shows "map_of (snd (attempt_once pf r url outDir fs)) p = Some v"
proof -
  from assms have "existsSync fs p" by (simp add: existsSync_map_of)
  then have "uniquePath fs outDir filename \<noteq> p" for filename
    using uniquePath_free [of fs outDir filename] by auto
  then show ?thesis
    using assms
    by (auto simp: attempt_once_def Let_def split: sum.splits prod.splits body.splits)
qed

lemma attempt_once_grows:
  assumes "attempt_once pf r url outDir fs = (res, fs')" and "\<not> existsSync fs' p"
  shows "\<not> existsSync fs p"
proof
  assume "existsSync fs p"
  then obtain v where "map_of fs p = Some v" by (auto simp: existsSync_map_of)
  from attempt_once_preserves [OF this, of pf r url outDir] assms(1)
  have "map_of fs' p = Some v" by simp
  with assms(2) show False by (simp add: existsSync_map_of)
qed

lemma loop_untouched:
  assumes "\<forall>n. attempt < n \<and> int n \<le> retries + 1
             \<longrightarrow> fails_before_write pf (fetch url headers n) url"
  shows "\<exists>msg tr'. downloadOne_loop pf fetch url headers outDir retries attempt lastErr fs tr
     = (Failed url msg, fs, tr')"
  using assms
proof (induction pf fetch url headers outDir retries attempt lastErr fs tr
    rule: downloadOne_loop.induct)
  case (1 pf fetch url headers outDir retries attempt lastErr fs tr)
  show ?case
  proof (cases "int attempt \<le> retries")
    case False
    then show ?thesis
      by (subst downloadOne_loop.simps) simp
  next
    case True
    with "1.prems" have "fails_before_write pf (fetch url headers (attempt + 1)) url" by simp
    from before_write_leaves_nothing [OF this] obtain e where
      a: "attempt_once pf (fetch url headers (attempt + 1)) url outDir fs = (Inl e, fs)"
      by blast
    have "\<forall>n. attempt + 1 < n \<and> int n \<le> retries + 1
        \<longrightarrow> fails_before_write pf (fetch url headers n) url"
      using "1.prems" by simp
    from "1.IH" [OF True a [symmetric] refl this]
    obtain msg tr' where
      "downloadOne_loop pf fetch url headers outDir retries (attempt + 1) (Some e) fs
        (tr @ [Fetch url]
           @ (if int (attempt + 1) \<le> retries then [Sleep (250 * (attempt + 1))] else []))
      = (Failed url msg, fs, tr')"
      by blast
    then show ?thesis
      using True a by (subst downloadOne_loop.simps) simp
  qed
qed

lemma loop_all_fail:
  assumes "\<forall>n. attempt < n \<and> int n \<le> retries + 1
             \<longrightarrow> attempt_error pf (fetch url headers n) url \<noteq> None"
  shows "\<exists>msg. fst (downloadOne_loop pf fetch url headers outDir retries attempt lastErr fs tr)
     = Failed url msg"
  using assms
proof (induction pf fetch url headers outDir retries attempt lastErr fs tr
    rule: downloadOne_loop.induct)
  case (1 pf fetch url headers outDir retries attempt lastErr fs tr)
  show ?case
  proof (cases "int attempt \<le> retries")
    case False
    then show ?thesis
      by (subst downloadOne_loop.simps) simp
  next
    case True
    with "1.prems" obtain e where
      "attempt_error pf (fetch url headers (attempt + 1)) url = Some e" by auto
    from attempt_once_error [OF this] obtain fs' where
      a: "attempt_once pf (fetch url headers (attempt + 1)) url outDir fs = (Inl e, fs')"
      by blast
    have "\<forall>n. attempt + 1 < n \<and> int n \<le> retries + 1
        \<longrightarrow> attempt_error pf (fetch url headers n) url \<noteq> None"
      using "1.prems" by simp
    from "1.IH" [OF True a [symmetric] refl this]
    show ?thesis
      using True a by (subst downloadOne_loop.simps) simp
  qed
qed

text \<open>No attempt, failed or not, changes or removes what is in the file system.\<close>

lemma loop_preserves:
  assumes "map_of fs p = Some v"
  shows "map_of (fst (snd (downloadOne_loop pf fetch url headers outDir retries attempt lastErr
                             fs tr))) p = Some v"
  using assms
proof (induction pf fetch url headers outDir retries attempt lastErr fs tr
    rule: downloadOne_loop.induct)
  case (1 pf fetch url headers outDir retries attempt lastErr fs tr)
  show ?case
  proof (cases "int attempt \<le> retries")
    case False
    then show ?thesis
      using "1.prems" by (subst downloadOne_loop.simps) simp
  next
    case True
    obtain res fs' where
      a: "attempt_once pf (fetch url headers (attempt + 1)) url outDir fs = (res, fs')"
      by (cases "attempt_once pf (fetch url headers (attempt + 1)) url outDir fs") auto
    from attempt_once_preserves [OF "1.prems", of pf "fetch url headers (attempt + 1)" url outDir] a
    have p: "map_of fs' p = Some v" by simp
    show ?thesis
    proof (cases res)
      case (Inr outPath)
      then show ?thesis
        using True a p by (subst downloadOne_loop.simps) simp
    next
      case (Inl err)
      with a have a': "attempt_once pf (fetch url headers (attempt + 1)) url outDir fs
          = (Inl err, fs')" by simp
      from "1.IH" [OF True a' [symmetric] refl p]
      show ?thesis
        using True a' by (subst downloadOne_loop.simps) simp
    qed
  qed
qed

text \<open>
  The file of an attempt that failed while the body was piped is still there when the
  loop ends, whatever the later attempts do.
\<close>

lemma loop_leaves_file:
  assumes "attempt < n" and "int n \<le> retries + 1"
    and "\<forall>m. attempt < m \<and> m < n \<longrightarrow> attempt_error pf (fetch url headers m) url \<noteq> None"
    and "attempt_plan pf (fetch url headers n) url = Inr (filename, BodyFails written e)"
  shows "\<exists>fs'. (n = attempt + 1 \<longrightarrow> fs' = fs)
     \<and> \<not> existsSync fs (uniquePath fs' outDir filename)
     \<and> map_of (fst (snd (downloadOne_loop pf fetch url headers outDir retries attempt lastErr
                            fs tr))) (uniquePath fs' outDir filename) = Some (File written)"
  using assms
proof (induction pf fetch url headers outDir retries attempt lastErr fs tr
    rule: downloadOne_loop.induct)
  case (1 pf fetch url headers outDir retries attempt lastErr fs tr)
  from "1.prems"(1,2) have le: "int attempt \<le> retries" by linarith
  show ?case
  proof (cases "n = attempt + 1")
    case True
    let ?p = "uniquePath fs outDir filename"
    have a: "attempt_once pf (fetch url headers (attempt + 1)) url outDir fs
        = (Inl e, (?p, File written) # fs)"
      using stream_failure_leaves_file "1.prems"(4) True by simp
    have "map_of ((?p, File written) # fs) ?p = Some (File written)" by simp
    from loop_preserves [OF this]
    have "map_of (fst (snd (downloadOne_loop pf fetch url headers outDir retries (attempt + 1)
                              (Some e) ((?p, File written) # fs) tr'))) ?p = Some (File written)"
      for tr' .
    then have "map_of (fst (snd (downloadOne_loop pf fetch url headers outDir retries attempt
                              lastErr fs tr))) ?p = Some (File written)"
      using le a by (subst downloadOne_loop.simps) simp
    with uniquePath_free [of fs outDir filename] show ?thesis by blast
  next
    case False
    with "1.prems"(1) have lt: "attempt + 1 < n" by simp
    with "1.prems"(3) obtain e' where
      "attempt_error pf (fetch url headers (attempt + 1)) url = Some e'" by auto
    from attempt_once_error [OF this] obtain fs1 where
      a: "attempt_once pf (fetch url headers (attempt + 1)) url outDir fs = (Inl e', fs1)"
      by blast
    have rest: "\<forall>m. attempt + 1 < m \<and> m < n
        \<longrightarrow> attempt_error pf (fetch url headers m) url \<noteq> None"
      using "1.prems"(3) by simp
    from "1.IH" [OF le a [symmetric] refl lt "1.prems"(2) rest "1.prems"(4)]
    obtain fs' where f: "\<not> existsSync fs1 (uniquePath fs' outDir filename)"
      "map_of (fst (snd (downloadOne_loop pf fetch url headers outDir retries (attempt + 1)
          (Some e') fs1
          (tr @ [Fetch url]
             @ (if int (attempt + 1) \<le> retries then [Sleep (250 * (attempt + 1))] else [])))))
        (uniquePath fs' outDir filename) = Some (File written)"
      by blast
    from attempt_once_grows [OF a f(1)]
    have "\<not> existsSync fs (uniquePath fs' outDir filename)" .
    moreover have "map_of (fst (snd (downloadOne_loop pf fetch url headers outDir retries attempt
        lastErr fs tr))) (uniquePath fs' outDir filename) = Some (File written)"
      using le a f(2) by (subst downloadOne_loop.simps) simp
    ultimately show ?thesis using False by blast
  qed
qed

text \<open>
  C3, as the code has it. A download all of whose attempts fail before anything is
  written (the fetch rejects, the status is not 2xx, the type is not \<open>image/*\<close>, the file
  name cannot be decoded, or the output file cannot be opened) fails and leaves the file
  system as it was. When all attempts fail and attempt \<open>n\<close> fails while the body is
  piped, the download fails and the file of that attempt is there afterwards, at the
  path the attempt resolved (\<open>uniquePath\<close> on the file system before the download, for
  the first attempt), a path at which nothing existed before the download; it holds the
  bytes written until the failure. No download changes or removes what existed before.
\<close>

theorem failed_download_file_system:
  "((\<forall>m. 1 \<le> m \<and> int m \<le> retries + 1 \<longrightarrow> fails_before_write pf (fetch url headers m) url)
      \<longrightarrow> fst (snd (downloadOne pf fetch fs url headers outDir retries)) = fs
        \<and> (\<exists>msg. fst (downloadOne pf fetch fs url headers outDir retries) = Failed url msg))
   \<and> ((\<forall>m. 1 \<le> m \<and> int m \<le> retries + 1
             \<longrightarrow> attempt_error pf (fetch url headers m) url \<noteq> None)
       \<and> 1 \<le> n \<and> int n \<le> retries + 1
       \<and> attempt_plan pf (fetch url headers n) url = Inr (filename, BodyFails written e)
      \<longrightarrow> (\<exists>msg. fst (downloadOne pf fetch fs url headers outDir retries) = Failed url msg)
        \<and> (\<exists>fs'. (n = 1 \<longrightarrow> fs' = fs)
              \<and> \<not> existsSync fs (uniquePath fs' outDir filename)
              \<and> map_of (fst (snd (downloadOne pf fetch fs url headers outDir retries)))
                   (uniquePath fs' outDir filename) = Some (File written)))
   \<and> (map_of fs q = Some v
      \<longrightarrow> map_of (fst (snd (downloadOne pf fetch fs url headers outDir retries))) q = Some v)"
proof -
  have 1: "fst (snd (downloadOne pf fetch fs url headers outDir retries)) = fs
        \<and> (\<exists>msg. fst (downloadOne pf fetch fs url headers outDir retries) = Failed url msg)"
    if "\<forall>m. 1 \<le> m \<and> int m \<le> retries + 1 \<longrightarrow> fails_before_write pf (fetch url headers m) url"
  proof -
    from that have "\<forall>m. 0 < m \<and> int m \<le> retries + 1
        \<longrightarrow> fails_before_write pf (fetch url headers m) url"
      by (simp add: Suc_le_eq)
    from loop_untouched [of 0 retries pf fetch url headers outDir None fs "[]", OF this]
    show ?thesis by (auto simp: downloadOne_def)
  qed
  have 2: "(\<exists>msg. fst (downloadOne pf fetch fs url headers outDir retries) = Failed url msg)
        \<and> (\<exists>fs'. (n = 1 \<longrightarrow> fs' = fs)
              \<and> \<not> existsSync fs (uniquePath fs' outDir filename)
              \<and> map_of (fst (snd (downloadOne pf fetch fs url headers outDir retries)))
                   (uniquePath fs' outDir filename) = Some (File written))"
    if all: "\<forall>m. 1 \<le> m \<and> int m \<le> retries + 1
               \<longrightarrow> attempt_error pf (fetch url headers m) url \<noteq> None"
      and n: "1 \<le> n" "int n \<le> retries + 1"
      and plan: "attempt_plan pf (fetch url headers n) url = Inr (filename, BodyFails written e)"
  proof -
    from all have "\<forall>m. 0 < m \<and> int m \<le> retries + 1
        \<longrightarrow> attempt_error pf (fetch url headers m) url \<noteq> None"
      by (simp add: Suc_le_eq)
    from loop_all_fail [of 0 retries pf fetch url headers outDir None fs "[]", OF this]
    have failed: "\<exists>msg. fst (downloadOne pf fetch fs url headers outDir retries) = Failed url msg"
      by (simp add: downloadOne_def)
    from all n(2) have before: "\<forall>m. 0 < m \<and> m < n
        \<longrightarrow> attempt_error pf (fetch url headers m) url \<noteq> None"
      by (auto simp: Suc_le_eq)
    from n(1) have pos: "0 < n" by simp
    have "\<exists>fs'. (n = 0 + 1 \<longrightarrow> fs' = fs)
       \<and> \<not> existsSync fs (uniquePath fs' outDir filename)
       \<and> map_of (fst (snd (downloadOne_loop pf fetch url headers outDir retries 0 None fs [])))
            (uniquePath fs' outDir filename) = Some (File written)"
      by (rule loop_leaves_file [where fetch = fetch and headers = headers and e = e])
         (fact pos n(2) before plan)+
    with failed show ?thesis by (simp add: downloadOne_def)
  qed
  have 3: "map_of (fst (snd (downloadOne pf fetch fs url headers outDir retries))) q = Some v"
    if "map_of fs q = Some v"
    using loop_preserves [OF that] by (simp add: downloadOne_def)
  from 1 2 3 show ?thesis by blast
qed

lemma lower_image_png: "toLowerCase ''image/png'' = ''image/png''"
  by code_simp

lemma sanitize_a_png: "sanitizeName ''a.png'' = ''a.png''"
  by code_simp

lemma basename_a_png: "path_basename ''/a.png'' [] = ''a.png''"
  by code_simp

lemma plan_truncated:
  "attempt_plan fixture_platform (Resolves truncated_png) u
     = Inr (''a.png'', BodyFails [] (JsError ''Error'' ''aborted''))"
  by (simp add: attempt_plan_def truncated_png_def fixture_platform_def js_or_def truthy_str_def
      lower_image_png startsWith_def dl_filenameFromDisposition_def pickFilenameFromUrl_def
      sanitize_a_png basename_a_png)

lemma unique_a_png:
  "uniquePath [(''downloads'', Dir)] ''downloads'' ''a.png'' = ''downloads/a.png''"
  by code_simp

lemma error_truncated_then_unavailable:
  "attempt_error fixture_platform (fetch_truncated_then_unavailable u h m) u
     = Some (if m = 1 then JsError ''Error'' ''aborted'' else JsError ''Error'' ''HTTP 503'')"
  using plan_unavailable [of fixture_platform u h m]
  by (simp add: attempt_error_def fetch_truncated_then_unavailable_def plan_truncated
      fetch_unavailable_def)

theorem failed_download_witness:
  "fails_before_write fixture_platform (fetch_unavailable ''http://cdn/a.png'' Map.empty 1)
      ''http://cdn/a.png''
   \<and> fst (snd (downloadOne fixture_platform fetch_unavailable [(''downloads'', Dir)]
                 ''http://cdn/a.png'' Map.empty ''downloads'' 0)) = [(''downloads'', Dir)]
   \<and> attempt_error fixture_platform
        (fetch_truncated_then_unavailable ''http://cdn/a.png'' Map.empty 1) ''http://cdn/a.png''
       = Some (JsError ''Error'' ''aborted'')
   \<and> attempt_error fixture_platform
        (fetch_truncated_then_unavailable ''http://cdn/a.png'' Map.empty 2) ''http://cdn/a.png''
       = Some (JsError ''Error'' ''HTTP 503'')
   \<and> attempt_plan fixture_platform
        (fetch_truncated_then_unavailable ''http://cdn/a.png'' Map.empty 1) ''http://cdn/a.png''
       = Inr (''a.png'', BodyFails [] (JsError ''Error'' ''aborted''))
   \<and> \<not> existsSync [(''downloads'', Dir)] ''downloads/a.png''
   \<and> (\<exists>msg. fst (downloadOne fixture_platform fetch_truncated_then_unavailable
                    [(''downloads'', Dir)] ''http://cdn/a.png'' Map.empty ''downloads'' 1)
               = Failed ''http://cdn/a.png'' msg)
   \<and> map_of (fst (snd (downloadOne fixture_platform fetch_truncated_then_unavailable
                         [(''downloads'', Dir)] ''http://cdn/a.png'' Map.empty ''downloads'' 1)))
        ''downloads/a.png'' = Some (File [])
   \<and> map_of (fst (snd (downloadOne fixture_platform fetch_truncated_then_unavailable
                         [(''downloads'', Dir)] ''http://cdn/a.png'' Map.empty ''downloads'' 1)))
        ''downloads'' = Some Dir"
proof -
  have a: "\<forall>m. 1 \<le> m \<and> int m \<le> 0 + 1
      \<longrightarrow> fails_before_write fixture_platform
            (fetch_unavailable ''http://cdn/a.png'' Map.empty m) ''http://cdn/a.png''"
    by (simp add: fails_before_write_def plan_unavailable)
  have b: "\<forall>m. 1 \<le> m \<and> int m \<le> 1 + 1
      \<longrightarrow> attempt_error fixture_platform
            (fetch_truncated_then_unavailable ''http://cdn/a.png'' Map.empty m) ''http://cdn/a.png''
          \<noteq> None"
    by (simp add: error_truncated_then_unavailable)
  have c: "attempt_plan fixture_platform
        (fetch_truncated_then_unavailable ''http://cdn/a.png'' Map.empty 1) ''http://cdn/a.png''
       = Inr (''a.png'', BodyFails [] (JsError ''Error'' ''aborted''))"
    by (simp add: fetch_truncated_then_unavailable_def plan_truncated)
  have d: "map_of [(''downloads'', Dir)] ''downloads'' = Some Dir" by simp
  from failed_download_file_system
    [where retries = 0 and pf = fixture_platform and fetch = fetch_unavailable
       and url = "''http://cdn/a.png''" and headers = Map.empty
       and fs = "[(''downloads'', Dir)]" and outDir = "''downloads''"] a
  have 1: "fst (snd (downloadOne fixture_platform fetch_unavailable [(''downloads'', Dir)]
                 ''http://cdn/a.png'' Map.empty ''downloads'' 0)) = [(''downloads'', Dir)]"
    by blast
  from failed_download_file_system
    [where retries = 1 and pf = fixture_platform and fetch = fetch_truncated_then_unavailable
       and url = "''http://cdn/a.png''" and headers = Map.empty
       and fs = "[(''downloads'', Dir)]" and outDir = "''downloads''" and n = 1
       and filename = "''a.png''" and written = "[]" and e = "JsError ''Error'' ''aborted''"
       and q = "''downloads''" and v = Dir] b c d
  have 2: "(\<exists>msg. fst (downloadOne fixture_platform fetch_truncated_then_unavailable
                    [(''downloads'', Dir)] ''http://cdn/a.png'' Map.empty ''downloads'' 1)
               = Failed ''http://cdn/a.png'' msg)
   \<and> map_of (fst (snd (downloadOne fixture_platform fetch_truncated_then_unavailable
                         [(''downloads'', Dir)] ''http://cdn/a.png'' Map.empty ''downloads'' 1)))
        (uniquePath [(''downloads'', Dir)] ''downloads'' ''a.png'') = Some (File [])
   \<and> map_of (fst (snd (downloadOne fixture_platform fetch_truncated_then_unavailable
                         [(''downloads'', Dir)] ''http://cdn/a.png'' Map.empty ''downloads'' 1)))
        ''downloads'' = Some Dir"
    by auto
  from 1 2 c show ?thesis
    by (simp add: fails_before_write_def plan_unavailable error_truncated_then_unavailable
        unique_a_png existsSync_def)
qed

text \<open>
  The claim as stated fails: with no retry and a body that breaks off, the download
  fails and a file is left at the path it resolved, where nothing existed before.
\<close>

theorem truncated_file_left_behind:
  "downloadOne fixture_platform fetch_truncated [(''downloads'', Dir)] ''http://cdn/a.png''
      Map.empty ''downloads'' 0
   = (Failed ''http://cdn/a.png'' ''Error: aborted'',
      [(''downloads/a.png'', File []), (''downloads'', Dir)],
      [Fetch ''http://cdn/a.png''])
   \<and> uniquePath [(''downloads'', Dir)] ''downloads'' ''a.png'' = ''downloads/a.png''
   \<and> \<not> existsSync [(''downloads'', Dir)] ''downloads/a.png''
   \<and> existsSync [(''downloads/a.png'', File []), (''downloads'', Dir)] ''downloads/a.png''"
proof -
  have a: "attempt_once fixture_platform (fetch_truncated ''http://cdn/a.png'' Map.empty (0 + 1))
      ''http://cdn/a.png'' ''downloads'' [(''downloads'', Dir)]
    = (Inl (JsError ''Error'' ''aborted''),
       [(''downloads/a.png'', File []), (''downloads'', Dir)])"
    using stream_failure_leaves_file [OF plan_truncated, of "''http://cdn/a.png''" "''downloads''"
        "[(''downloads'', Dir)]"]
    by (simp add: fetch_truncated_def unique_a_png)
  have "downloadOne_loop fixture_platform fetch_truncated ''http://cdn/a.png'' Map.empty
      ''downloads'' 0 (0 + 1) (Some (JsError ''Error'' ''aborted''))
      [(''downloads/a.png'', File []), (''downloads'', Dir)] [Fetch ''http://cdn/a.png'']
    = (Failed ''http://cdn/a.png'' ''Error: aborted'',
      [(''downloads/a.png'', File []), (''downloads'', Dir)],
      [Fetch ''http://cdn/a.png''])"
    by (subst downloadOne_loop.simps) (simp add: String_err_def)
  with a have "downloadOne fixture_platform fetch_truncated [(''downloads'', Dir)]
      ''http://cdn/a.png'' Map.empty ''downloads'' 0
   = (Failed ''http://cdn/a.png'' ''Error: aborted'',
      [(''downloads/a.png'', File []), (''downloads'', Dir)],
      [Fetch ''http://cdn/a.png''])"
    unfolding downloadOne_def by (subst downloadOne_loop.simps) simp
  then show ?thesis by (simp add: unique_a_png existsSync_def)
qed

end
